theory Spec2Isabelle
  imports Complex_Main "HOL-Library.AList"
begin

section \<open>JavaScript values\<close>

text \<open>
  The values that \<^verbatim>\<open>lib/cli.js\<close> inspects. A number is a finite rational (every finite
  double is one; \<open>-0\<close> is identified with \<open>0\<close>, which the tests of this file cannot tell
  apart), \<open>NaN\<close> or an infinity. An object is an association list in insertion order,
  read with \<open>map_of\<close> and written with \<open>AList.update\<close>, which keeps the position of an
  existing key and appends a new one, as a property assignment does.
\<close>

datatype jsnum = Fin rat | NaN | PosInf | NegInf

datatype jsval =
    JUndefined
  | JNull
  | JBool bool
  | JNum jsnum
  | JStr string
  | JArr "jsval list"
  | JObj "(string \<times> jsval) list"

type_synonym obj = "(string \<times> jsval) list"

text \<open>\<^verbatim>\<open>Reflect.has(o, k)\<close> on a plain object.\<close>

definition has :: "obj \<Rightarrow> string \<Rightarrow> bool" where
  "has ob k = (map_of ob k \<noteq> None)"

text \<open>\<^verbatim>\<open>o[k]\<close>: the value of a missing property is \<^verbatim>\<open>undefined\<close>.\<close>

definition js_get :: "obj \<Rightarrow> string \<Rightarrow> jsval" where
  "js_get ob k = (case map_of ob k of None \<Rightarrow> JUndefined | Some v \<Rightarrow> v)"

text \<open>Truthiness: \<^verbatim>\<open>undefined\<close>, \<^verbatim>\<open>null\<close>, \<^verbatim>\<open>false\<close>, \<^verbatim>\<open>0\<close>, \<^verbatim>\<open>NaN\<close> and \<^verbatim>\<open>''\<close> are falsy.\<close>

fun truthy :: "jsval \<Rightarrow> bool" where
  "truthy JUndefined = False"
| "truthy JNull = False"
| "truthy (JBool b) = b"
| "truthy (JNum (Fin q)) = (q \<noteq> 0)"
| "truthy (JNum NaN) = False"
| "truthy (JNum PosInf) = True"
| "truthy (JNum NegInf) = True"
| "truthy (JStr s) = (s \<noteq> [])"
| "truthy (JArr xs) = True"
| "truthy (JObj kvs) = True"

text \<open>\<^verbatim>\<open>Number.isInteger(v)\<close>: false for every value that is not a number.\<close>

fun is_integer :: "jsval \<Rightarrow> bool" where
  "is_integer (JNum (Fin q)) = (of_int \<lfloor>q\<rfloor> = q)"
| "is_integer v = False"

text \<open>\<^verbatim>\<open>n < 0\<close> on a number.\<close>

fun num_negative :: "jsnum \<Rightarrow> bool" where
  "num_negative (Fin q) = (q < 0)"
| "num_negative NegInf = True"
| "num_negative NaN = False"
| "num_negative PosInf = False"

section \<open>The option schema\<close>

text \<open>
  \<^verbatim>\<open>coerceLastValue\<close>: of a repeated flag the last value counts; \<^verbatim>\<open>pop\<close> on an empty
  array gives \<^verbatim>\<open>undefined\<close>.
\<close>

definition coerceLastValue :: "jsval \<Rightarrow> jsval" where
  "coerceLastValue v =
     (case v of JArr xs \<Rightarrow> (if xs = [] then JUndefined else last xs) | _ \<Rightarrow> v)"

datatype flag_type = TBoolean | TNumber | TString

text \<open>An entry of the table; \<open>coerce_last\<close> says that its \<^verbatim>\<open>coerce\<close> is \<^verbatim>\<open>coerceLastValue\<close>.\<close>

record flag_spec =
  short_name :: "string option"
  coerce_last :: bool
  flag_type :: flag_type

text \<open>\<^verbatim>\<open>FLAGS\<close>, in the order of its keys.\<close>

definition FLAGS :: "(string \<times> flag_spec) list" where
  "FLAGS =
    [(''concurrency'', \<lparr>short_name = Some ''c'', coerce_last = True, flag_type = TNumber\<rparr>),
     (''fail-fast'', \<lparr>short_name = None, coerce_last = True, flag_type = TBoolean\<rparr>),
     (''match'', \<lparr>short_name = Some ''m'', coerce_last = False, flag_type = TString\<rparr>),
     (''node-arguments'', \<lparr>short_name = None, coerce_last = True, flag_type = TString\<rparr>),
     (''serial'', \<lparr>short_name = Some ''s'', coerce_last = True, flag_type = TBoolean\<rparr>),
     (''tap'', \<lparr>short_name = Some ''t'', coerce_last = True, flag_type = TBoolean\<rparr>),
     (''timeout'', \<lparr>short_name = Some ''T'', coerce_last = True, flag_type = TString\<rparr>),
     (''update-snapshots'', \<lparr>short_name = Some ''u'', coerce_last = True, flag_type = TBoolean\<rparr>),
     (''verbose'', \<lparr>short_name = Some ''v'', coerce_last = True, flag_type = TBoolean\<rparr>),
     (''watch'', \<lparr>short_name = Some ''w'', coerce_last = True, flag_type = TBoolean\<rparr>)]"

text \<open>\<^verbatim>\<open>Object.keys(FLAGS)\<close>.\<close>

definition flag_names :: "string list" where
  "flag_names = map fst FLAGS"

section \<open>Merging the command line into the persisted configuration\<close>

text \<open>
  Objects live in a store, addressed by their position; a reference is valid when it is
  below the length of the store. \<^verbatim>\<open>{...conf}\<close> allocates a new object holding the
  properties of the old one, and \<^verbatim>\<open>o[k] = v\<close> writes through a reference.
\<close>

type_synonym store = "obj list"

definition spread_copy :: "store \<Rightarrow> nat \<Rightarrow> store \<times> nat" where
  "spread_copy h a = (h @ [h ! a], length h)"

definition put_prop :: "store \<Rightarrow> nat \<Rightarrow> string \<Rightarrow> jsval \<Rightarrow> store" where
  "put_prop h a k v = h[a := AList.update k v (h ! a)]"

text \<open>The body of the loop over the flags: \<open>argv\<close> and \<open>combined\<close> are references.\<close>

definition assign_flag :: "nat \<Rightarrow> nat \<Rightarrow> store \<Rightarrow> string \<Rightarrow> store" where
  "assign_flag argv combined h flag =
     (if has (h ! argv) flag then
        (if flag = ''fail-fast'' then put_prop h combined ''failFast'' (js_get (h ! argv) flag)
         else if flag = ''update-snapshots'' then
           put_prop h combined ''updateSnapshots'' (js_get (h ! argv) flag)
         else if flag \<noteq> ''node-arguments'' then put_prop h combined flag (js_get (h ! argv) flag)
         else h)
      else h)"

text \<open>\<^verbatim>\<open>const combined = {...conf}; for (const flag of Object.keys(FLAGS)) {...}\<close>\<close>

definition build_combined :: "store \<Rightarrow> nat \<Rightarrow> nat \<Rightarrow> store \<times> nat" where
  "build_combined h conf argv =
     (case spread_copy h conf of
        (h1, combined) \<Rightarrow> (foldl (assign_flag argv combined) h1 flag_names, combined))"

text \<open>The merged configuration as a value: the merge run on a store of the two objects.\<close>

definition combined_of :: "obj \<Rightarrow> obj \<Rightarrow> obj" where
  "combined_of conf argv = (case build_combined [conf, argv] 0 1 of (h, c) \<Rightarrow> h ! c)"

text \<open>The loop body read on the value of \<open>combined\<close>, for a fixed \<open>argv\<close>.\<close>

definition merge_step :: "obj \<Rightarrow> obj \<Rightarrow> string \<Rightarrow> obj" where
  "merge_step argv c flag =
     (if has argv flag then
        (if flag = ''fail-fast'' then AList.update ''failFast'' (js_get argv flag) c
         else if flag = ''update-snapshots'' then
           AList.update ''updateSnapshots'' (js_get argv flag) c
         else if flag \<noteq> ''node-arguments'' then AList.update flag (js_get argv flag) c
         else c)
      else c)"

text \<open>The property a flag is stored under, if the merge stores it at all.\<close>

definition target :: "string \<Rightarrow> string option" where
  "target flag =
     (if flag = ''fail-fast'' then Some ''failFast''
      else if flag = ''update-snapshots'' then Some ''updateSnapshots''
      else if flag \<noteq> ''node-arguments'' then Some flag
      else None)"

section \<open>Outcomes of a run\<close>

text \<open>
  What \<^verbatim>\<open>exports.run\<close> does to the outside world, in order. \<open>Diagnostic m\<close> is the line
  that \<^verbatim>\<open>exit(m)\<close> prints with \<^verbatim>\<open>console.error\<close>, \<open>Warning m\<close> a magenta notice printed with
  \<^verbatim>\<open>console.log\<close>, \<open>Removed d\<close> the confirmation that the cache under \<open>d\<close> was cleared.
\<close>

record debug_info =
  dbg_break :: bool
  dbg_files :: jsval
  dbg_port :: jsval

record api_options =
  opt_cacheEnabled :: bool
  opt_chalk_level :: nat
  opt_concurrency :: jsval
  opt_debug :: "debug_info option"
  opt_failFast :: jsval
  opt_failWithoutAssertions :: bool
  opt_match :: "jsval list"
  opt_serial :: jsval
  opt_timeout :: jsval
  opt_updateSnapshots :: jsval

datatype reporter = TapReporter | VerboseReporter jsval | MiniReporter jsval

datatype state_change = StateChange (evt_type: jsval)

record plan =
  plan_debug :: bool
  plan_files :: "string list"
  plan_status :: "state_change list"

datatype effect =
    Diagnostic string
  | Warning string
  | Notify
  | DelCache string
  | Removed string
  | NewApi api_options
  | NewReporter reporter
  | NewWatcher
  | ObserveStdin
  | ApiRun
  | StartRun plan
  | EndRun
  | SetExitCode int

text \<open>
  How a run can end other than by returning: \<^verbatim>\<open>process.exit(n)\<close>, or an exception
  that nothing catches.
\<close>

datatype final = ProcessExit nat | Threw

text \<open>A step yields the effects so far and either the way the process ended or a value.\<close>

type_synonym 'a step = "effect list \<times> (final + 'a)"

definition proceed :: "'a \<Rightarrow> 'a step" where
  "proceed x = ([], Inr x)"

definition emit :: "effect \<Rightarrow> unit step" where
  "emit e = ([e], Inr ())"

definition halt :: "final \<Rightarrow> 'a step" where
  "halt f = ([], Inl f)"

definition and_then :: "'a step \<Rightarrow> ('a \<Rightarrow> 'b step) \<Rightarrow> 'b step" where
  "and_then s k =
     (case s of
        (es, Inl f) \<Rightarrow> (es, Inl f)
      | (es, Inr x) \<Rightarrow> (case k x of (es', r) \<Rightarrow> (es @ es', r)))"

definition seq_step :: "unit step \<Rightarrow> 'b step \<Rightarrow> 'b step" where
  "seq_step s t = and_then s (\<lambda>_. t)"

definition when_do :: "bool \<Rightarrow> unit step \<Rightarrow> unit step" where
  "when_do b s = (if b then s else proceed ())"

text \<open>\<^verbatim>\<open>function exit(message)\<close>: print the diagnostic, then \<^verbatim>\<open>process.exit(1)\<close>.\<close>

definition exit_with :: "string \<Rightarrow> 'a step" where
  "exit_with message = ([Diagnostic message], Inl (ProcessExit 1))"

section \<open>The environment of a run\<close>

text \<open>
  A thrown value, as far as the code looks at it: its \<^verbatim>\<open>message\<close>, its \<^verbatim>\<open>stack\<close> when
  it has one, and the text it turns into inside a template string.
\<close>

record thrown =
  err_message :: string
  err_stack :: "string option"
  err_text :: string

text \<open>
  Modelled from the spec: the error thrown by \<^verbatim>\<open>./load-config\<close>, which is not among the
  source files. It is a \<open>ConfigError\<close> with a message and an optional parent cause
  (\<open>None\<close> when \<^verbatim>\<open>confError.parent\<close> is missing or falsy).
\<close>

record conf_error =
  ce_message :: string
  ce_parent :: "thrown option"

datatype load_result = Loaded obj | LoadFailed conf_error

text \<open>Which command handler of the argument parser ran.\<close>

datatype command = RunTests | DebugCmd | ResetCacheCmd

datatype pkg_result = PkgRead jsval | PkgMissing | PkgError

datatype run_result = Rejected | Resolved "bool \<Rightarrow> int"

text \<open>
  Everything the code takes from modules that are not part of \<^verbatim>\<open>lib/cli.js\<close>: the
  results of the helpers it calls (\<open>Inl m\<close> is an exception with message \<open>m\<close>), and what
  the engine emits: the plans of its \<^verbatim>\<open>run\<close> events, each with the events of its status
  stream, and the result of \<^verbatim>\<open>api.run\<close>. \<open>path_is_absolute\<close> says of a path that
  \<^verbatim>\<open>path.resolve\<close> needs no argument before it (on POSIX, that it starts with a slash).
\<close>

record env =
  is_ci :: bool
  stdout_is_tty :: bool
  chalk_level :: nat
  gray :: "nat \<Rightarrow> string \<Rightarrow> string"
  path_join :: "string list \<Rightarrow> string"
  path_is_absolute :: "string \<Rightarrow> bool"
  del_result :: "thrown option"
  read_pkg :: pkg_result
  babel_provider :: "string + jsval"
  typescript_provider :: "string + jsval"
  environment_variables :: "string + jsval"
  extensions :: "string + jsval"
  globs :: "string + jsval"
  node_arguments :: "string + jsval"
  engine_plans :: "plan list"
  engine_result :: run_result

section \<open>Resolving the configuration\<close>

text \<open>Lines 82 to 89: a failed load leaves \<^verbatim>\<open>conf = {}\<close> and keeps the error.\<close>

definition conf_of :: "load_result \<Rightarrow> obj" where
  "conf_of ld = (case ld of Loaded c \<Rightarrow> c | LoadFailed e \<Rightarrow> [])"

definition confError_of :: "load_result \<Rightarrow> conf_error option" where
  "confError_of ld = (case ld of Loaded c \<Rightarrow> None | LoadFailed e \<Rightarrow> Some e)"

text \<open>The handler of the \<^verbatim>\<open>debug\<close> command, lines 144 to 150.\<close>

definition debug_of :: "command \<Rightarrow> obj \<Rightarrow> debug_info option" where
  "debug_of cmd argv =
     (if cmd = DebugCmd then
        Some \<lparr>dbg_break = (js_get argv ''break'' = JBool True),
              dbg_files = js_get argv ''pattern'',
              dbg_port = js_get argv ''port''\<rparr>
      else None)"

text \<open>\<^verbatim>\<open>{level: combined.color === false ? 0 : require('chalk').level}\<close>\<close>

definition chalk_options_level :: "env \<Rightarrow> obj \<Rightarrow> nat" where
  "chalk_options_level e combined =
     (if js_get combined ''color'' = JBool False then 0 else chalk_level e)"

text \<open>\<^verbatim>\<open>(error && error.stack) || error\<close>, as text.\<close>

definition cause_text :: "thrown \<Rightarrow> string" where
  "cause_text t =
     (case err_stack t of
        None \<Rightarrow> err_text t
      | Some s \<Rightarrow> if s \<noteq> [] then s else err_text t)"

definition blank_line :: string where
  "blank_line = [CHR 0x0A, CHR 0x0A]"

text \<open>Lines 178 to 184.\<close>

definition report_confError :: "(string \<Rightarrow> string) \<Rightarrow> conf_error option \<Rightarrow> unit step" where
  "report_confError g ce =
     (case ce of
        None \<Rightarrow> proceed ()
      | Some e \<Rightarrow>
          (case ce_parent e of
             Some p \<Rightarrow> exit_with (ce_message e @ blank_line @ g (cause_text p))
           | None \<Rightarrow> exit_with (ce_message e)))"

text \<open>
  Lines 189 to 203. \<^verbatim>\<open>path.join\<close> throws on a project directory that is not a string.
\<close>

definition reset_cache :: "env \<Rightarrow> (string \<Rightarrow> string) \<Rightarrow> jsval \<Rightarrow> unit step" where
  "reset_cache e g projectDir =
     (case projectDir of
        JStr d \<Rightarrow>
          (let cacheDir = path_join e [d, ''node_modules'', ''.cache'', ''ava'']
           in seq_step (emit (DelCache cacheDir))
                (case del_result e of
                   None \<Rightarrow> ([Removed cacheDir], Inl (ProcessExit 0))
                 | Some err \<Rightarrow>
                     exit_with (''Error removing AVA cache files in '' @ cacheDir @ blank_line
                                @ g (cause_text err))))
      | _ \<Rightarrow> halt Threw)"

section \<open>Validation\<close>

text \<open>Lines 205 to 217.\<close>

definition watch_checks :: "env \<Rightarrow> obj \<Rightarrow> obj \<Rightarrow> debug_info option \<Rightarrow> unit step" where
  "watch_checks e argv conf debug =
     (if truthy (js_get argv ''watch'') then
        seq_step
          (when_do (truthy (js_get argv ''tap'') \<and> \<not> truthy (js_get conf ''tap''))
             (exit_with ''The TAP reporter is not available when using watch mode.''))
          (seq_step
             (when_do (is_ci e)
                (exit_with
                   ''Watch mode is not available in CI, as it prevents AVA from terminating.''))
             (when_do (debug \<noteq> None) (exit_with ''Watch mode is not available when debugging.'')))
      else proceed ())"

text \<open>Lines 219 to 231.\<close>

definition debug_checks :: "env \<Rightarrow> obj \<Rightarrow> obj \<Rightarrow> obj \<Rightarrow> debug_info option \<Rightarrow> unit step" where
  "debug_checks e argv conf combined debug =
     (if debug \<noteq> None then
        seq_step
          (when_do (truthy (js_get argv ''tap'') \<and> \<not> truthy (js_get conf ''tap''))
             (exit_with ''The TAP reporter is not available when debugging.''))
          (seq_step
             (when_do (is_ci e) (exit_with ''Debugging is not available in CI.''))
             (when_do (truthy (js_get combined ''timeout''))
                (emit (Warning ''The timeout option has been disabled to help with debugging.''))))
      else proceed ())"

text \<open>
  Lines 233 to 235. \<^verbatim>\<open>!Number.isInteger(c) || c < 0\<close>: the comparison is only reached for
  an integer number.
\<close>

definition concurrency_invalid :: "jsval \<Rightarrow> bool" where
  "concurrency_invalid v =
     (\<not> is_integer v \<or> (case v of JNum n \<Rightarrow> num_negative n | _ \<Rightarrow> False))"

definition concurrency_message :: string where
  "concurrency_message =
     ''The --concurrency or -c flag must be provided with a nonnegative integer.''"

definition concurrency_check :: "obj \<Rightarrow> unit step" where
  "concurrency_check combined =
     when_do (has combined ''concurrency'' \<and> concurrency_invalid (js_get combined ''concurrency''))
       (exit_with concurrency_message)"

text \<open>
  \<^verbatim>\<open>Object.keys(v).length\<close>; \<open>None\<close> is the \<^verbatim>\<open>TypeError\<close> on \<^verbatim>\<open>undefined\<close> and \<^verbatim>\<open>null\<close>.
  A string has one key for each of its code units; only whether the count is zero is used.
\<close>

fun key_count :: "jsval \<Rightarrow> nat option" where
  "key_count JUndefined = None"
| "key_count JNull = None"
| "key_count (JBool b) = Some 0"
| "key_count (JNum n) = Some 0"
| "key_count (JStr s) = Some (length s)"
| "key_count (JArr xs) = Some (length xs)"
| "key_count (JObj kvs) = Some (length (remdups (map fst kvs)))"

text \<open>Lines 237 to 239; \<open>experiments\<close> is \<^verbatim>\<open>conf.nonSemVerExperiments\<close>.\<close>

definition experiments_notice :: "obj \<Rightarrow> jsval \<Rightarrow> unit step" where
  "experiments_notice combined experiments =
     (if \<not> truthy (js_get combined ''tap'') then
        (case key_count experiments of
           None \<Rightarrow> halt Threw
         | Some n \<Rightarrow>
             when_do (n > 0)
               (emit (Warning (''Experiments are enabled. These are unsupported and may ''
                               @ ''change or be removed at any time.''))))
      else proceed ())"

text \<open>
  Lines 241 to 251. The first message has a right single quotation mark (U+2019),
  written here as its three UTF-8 bytes.
\<close>

definition compileEnhancements_message :: string where
  "compileEnhancements_message =
     ''Enhancement compilation must be configured in AVA'' @ [CHR 0xE2, CHR 0x80, CHR 0x99]
     @ ''s Babel options.''"

definition helpers_message :: string where
  "helpers_message =
     ''AVA no longer compiles helpers. Add exclusion patterns to the '' @ [CHR 0x27]
     @ ''files'' @ [CHR 0x27] @ '' configuration and specify '' @ [CHR 0x27]
     @ ''compileAsTests'' @ [CHR 0x27] @ '' in the Babel options instead.''"

definition sources_message :: string where
  "sources_message =
     [CHR 0x27] @ ''sources'' @ [CHR 0x27] @ '' has been removed. Use '' @ [CHR 0x27]
     @ ''ignoredByWatcher'' @ [CHR 0x27]
     @ '' to provide glob patterns of files that the watcher should ignore.''"

definition legacy_checks :: "obj \<Rightarrow> unit step" where
  "legacy_checks conf =
     seq_step (when_do (has conf ''compileEnhancements'') (exit_with compileEnhancements_message))
       (seq_step (when_do (has conf ''helpers'') (exit_with helpers_message))
          (when_do (has conf ''sources'') (exit_with sources_message)))"

text \<open>The checks of lines 205 to 231, which come before the concurrency check.\<close>

definition mode_checks :: "env \<Rightarrow> obj \<Rightarrow> obj \<Rightarrow> obj \<Rightarrow> debug_info option \<Rightarrow> unit step" where
  "mode_checks e argv conf combined debug =
     seq_step (watch_checks e argv conf debug) (debug_checks e argv conf combined debug)"

section \<open>Preparation\<close>

text \<open>Lines 265 to 272: only a missing manifest is tolerated.\<close>

definition read_manifest :: "env \<Rightarrow> unit step" where
  "read_manifest e = (case read_pkg e of PkgError \<Rightarrow> halt Threw | _ \<Rightarrow> proceed ())"

text \<open>\<^verbatim>\<open>try { ... } catch (error) { exit(error.message); }\<close>\<close>

definition or_exit :: "string + jsval \<Rightarrow> unit step" where
  "or_exit r = (case r of Inl m \<Rightarrow> exit_with m | Inr v \<Rightarrow> proceed ())"

text \<open>Lines 282 to 335.\<close>

definition prepare :: "env \<Rightarrow> obj \<Rightarrow> unit step" where
  "prepare e conf =
     seq_step (when_do (has conf ''babel'') (or_exit (babel_provider e)))
       (seq_step (when_do (has conf ''typescript'') (or_exit (typescript_provider e)))
          (seq_step (or_exit (environment_variables e))
             (seq_step (or_exit (extensions e))
                (seq_step (or_exit (globs e)) (or_exit (node_arguments e))))))"

text \<open>
  The package \<^verbatim>\<open>arrify\<close>: nothing for \<^verbatim>\<open>null\<close> and \<^verbatim>\<open>undefined\<close>, an array as it is, any other
  value alone in a list.
\<close>

definition arrify :: "jsval \<Rightarrow> jsval list" where
  "arrify v = (case v of JUndefined \<Rightarrow> [] | JNull \<Rightarrow> [] | JArr xs \<Rightarrow> xs | _ \<Rightarrow> [v])"

text \<open>Line 343.\<close>

definition match_of :: "obj \<Rightarrow> jsval list" where
  "match_of combined =
     (if js_get combined ''match'' = JStr [] then [] else arrify (js_get combined ''match''))"

definition js_or :: "jsval \<Rightarrow> jsval \<Rightarrow> jsval" where
  "js_or a b = (if truthy a then a else b)"

fun is_string :: "jsval \<Rightarrow> bool" where
  "is_string (JStr s) = True"
| "is_string v = False"

text \<open>
  Lines 345 and 346. \<^verbatim>\<open>input.map\<close> needs an array, and the path functions throw on an
  argument that is not a string.
\<close>

definition input_of :: "debug_info option \<Rightarrow> obj \<Rightarrow> jsval" where
  "input_of debug argv =
     (case debug of
        Some d \<Rightarrow> dbg_files d
      | None \<Rightarrow> js_or (js_get argv ''pattern'') (JArr []))"

definition resolve_filter :: "jsval \<Rightarrow> jsval \<Rightarrow> unit step" where
  "resolve_filter projectDir input =
     (case input of
        JArr xs \<Rightarrow>
          (if xs = [] \<or> (is_string projectDir \<and> list_all is_string xs) then proceed ()
           else halt Threw)
      | _ \<Rightarrow> halt Threw)"

text \<open>
  Lines 348 to 372: the options computed here. The results of the preparation steps,
  the manifest's module type and the project directory are handed on as they are and
  left out.
\<close>

definition options_of :: "env \<Rightarrow> obj \<Rightarrow> debug_info option \<Rightarrow> api_options" where
  "options_of e combined debug =
     \<lparr>opt_cacheEnabled = (js_get combined ''cache'' \<noteq> JBool False),
      opt_chalk_level = chalk_options_level e combined,
      opt_concurrency = js_or (js_get combined ''concurrency'') (JNum (Fin 0)),
      opt_debug = debug,
      opt_failFast = js_get combined ''failFast'',
      opt_failWithoutAssertions = (js_get combined ''failWithoutAssertions'' \<noteq> JBool False),
      opt_match = match_of combined,
      opt_serial = js_get combined ''serial'',
      opt_timeout = js_or (js_get combined ''timeout'') (JStr ''10s''),
      opt_updateSnapshots = js_get combined ''updateSnapshots''\<rparr>"

text \<open>
  \<^verbatim>\<open>path.resolve(projectDir, snapshotDir)\<close>, line 368, is only called for a truthy
  \<^verbatim>\<open>snapshotDir\<close>. It reads its arguments from the last to the first and stops at an
  absolute path: it throws on a \<^verbatim>\<open>snapshotDir\<close> that is not a string, and on a project
  directory that is not a string only when \<^verbatim>\<open>snapshotDir\<close> is relative.
\<close>

definition snapshotDir_resolves :: "env \<Rightarrow> jsval \<Rightarrow> jsval \<Rightarrow> bool" where
  "snapshotDir_resolves e projectDir snapshotDir =
     (case snapshotDir of
        JStr s \<Rightarrow> path_is_absolute e s \<or> is_string projectDir
      | _ \<Rightarrow> False)"

definition new_api :: "env \<Rightarrow> obj \<Rightarrow> jsval \<Rightarrow> debug_info option \<Rightarrow> unit step" where
  "new_api e combined projectDir debug =
     (if truthy (js_get combined ''snapshotDir'')
         \<and> \<not> snapshotDir_resolves e projectDir (js_get combined ''snapshotDir'')
      then halt Threw
      else emit (NewApi (options_of e combined debug)))"

section \<open>Reporter and run\<close>

text \<open>Lines 374 to 395.\<close>

definition select_reporter :: "env \<Rightarrow> obj \<Rightarrow> debug_info option \<Rightarrow> reporter" where
  "select_reporter e combined debug =
     (if truthy (js_get combined ''tap'') \<and> \<not> truthy (js_get combined ''watch'') \<and> debug = None
      then TapReporter
      else if debug \<noteq> None \<or> truthy (js_get combined ''verbose'') \<or> is_ci e
              \<or> \<not> stdout_is_tty e
      then VerboseReporter (js_get combined ''watch'')
      else MiniReporter (js_get combined ''watch''))"

text \<open>The listener of a plan's status stream, lines 400 to 405.\<close>

definition on_stateChange :: "state_change \<Rightarrow> unit step" where
  "on_stateChange evt =
     (if evt_type evt = JStr ''interrupt'' then ([EndRun], Inl (ProcessExit 1))
      else proceed ())"

text \<open>The events of one status stream, delivered in order.\<close>

fun status_stream :: "state_change list \<Rightarrow> unit step" where
  "status_stream [] = proceed ()"
| "status_stream (evt # evts) = seq_step (on_stateChange evt) (status_stream evts)"

text \<open>The first \<^verbatim>\<open>run\<close> listener, lines 397 to 406, with the events that follow.\<close>

definition on_run :: "plan \<Rightarrow> unit step" where
  "on_run p = seq_step (emit (StartRun p)) (status_stream (plan_status p))"

text \<open>
  Watch mode, lines 409 to 417: the runs that the watcher starts afterwards reach the
  first listener only.
\<close>

fun watch_runs :: "plan list \<Rightarrow> unit step" where
  "watch_runs [] = proceed ()"
| "watch_runs (p # ps) = seq_step (on_run p) (watch_runs ps)"

definition watch_mode :: "env \<Rightarrow> unit step" where
  "watch_mode e =
     seq_step (emit NewWatcher) (seq_step (emit ObserveStdin) (watch_runs (engine_plans e)))"

text \<open>
  One-shot mode: both \<^verbatim>\<open>run\<close> listeners see each plan, the second one (lines 420 to 424)
  sets \<^verbatim>\<open>debugWithoutSpecificFile\<close>, the value carried along.
\<close>

fun drive_runs :: "plan list \<Rightarrow> bool \<Rightarrow> bool step" where
  "drive_runs [] flag = proceed flag"
| "drive_runs (p # ps) flag =
     seq_step (on_run p)
       (drive_runs ps (if plan_debug p \<and> length (plan_files p) \<noteq> 1 then True else flag))"

definition debug_path_message :: string where
  "debug_path_message = ''Provide the path to the test file you wish to debug''"

text \<open>Lines 419 to 434.\<close>

definition one_shot :: "env \<Rightarrow> jsval list \<Rightarrow> unit step" where
  "one_shot e match =
     seq_step (emit ApiRun)
       (and_then (drive_runs (engine_plans e) False)
          (\<lambda>debugWithoutSpecificFile.
             case engine_result e of
               Rejected \<Rightarrow> halt Threw
             | Resolved suggestExitCode \<Rightarrow>
                 if debugWithoutSpecificFile then exit_with debug_path_message
                 else ([SetExitCode (suggestExitCode (length match > 0)), EndRun], Inr ())))"

text \<open>Lines 374 to 435.\<close>

definition report_and_run :: "env \<Rightarrow> obj \<Rightarrow> debug_info option \<Rightarrow> unit step" where
  "report_and_run e combined debug =
     seq_step (emit (NewReporter (select_reporter e combined debug)))
       (if truthy (js_get combined ''watch'') then watch_mode e
        else one_shot e (match_of combined))"

section \<open>The whole run\<close>

text \<open>Everything after the mode checks, from line 233 on.\<close>

definition after_concurrency :: "env \<Rightarrow> obj \<Rightarrow> obj \<Rightarrow> obj \<Rightarrow> debug_info option \<Rightarrow> unit step" where
  "after_concurrency e conf argv combined debug =
     seq_step (experiments_notice combined (js_get conf ''nonSemVerExperiments''))
       (seq_step (legacy_checks conf)
          (seq_step (read_manifest e)
             (seq_step (prepare e conf)
                (seq_step (resolve_filter (js_get conf ''projectDir'') (input_of debug argv))
                   (seq_step (new_api e combined (js_get conf ''projectDir'') debug)
                      (report_and_run e combined debug))))))"

definition validate_and_run :: "env \<Rightarrow> obj \<Rightarrow> obj \<Rightarrow> obj \<Rightarrow> debug_info option \<Rightarrow> unit step" where
  "validate_and_run e conf argv combined debug =
     seq_step (mode_checks e argv conf combined debug)
       (seq_step (concurrency_check combined) (after_concurrency e conf argv combined debug))"

text \<open>
  \<^verbatim>\<open>exports.run\<close>, given the outcome of the configuration load, the command and the
  parsed arguments.
\<close>

definition run :: "env \<Rightarrow> load_result \<Rightarrow> command \<Rightarrow> obj \<Rightarrow> unit step" where
  "run e ld cmd argv =
     (let conf = conf_of ld;
          debug = debug_of cmd argv;
          combined = combined_of conf argv;
          g = gray e (chalk_options_level e combined)
      in seq_step (report_confError g (confError_of ld))
           (seq_step (emit Notify)
              (if cmd = ResetCacheCmd then reset_cache e g (js_get conf ''projectDir'')
               else validate_and_run e conf argv combined debug)))"

section \<open>Vocabulary for the claims\<close>

text \<open>The effects of a check: a diagnostic or a warning.\<close>

fun is_message :: "effect \<Rightarrow> bool" where
  "is_message (Diagnostic m) = True"
| "is_message (Warning m) = True"
| "is_message x = False"

text \<open>A step that can only exit with code 1 or go on, and only prints messages.\<close>

definition checks_only :: "unit step \<Rightarrow> bool" where
  "checks_only s =
     ((snd s = Inl (ProcessExit 1) \<or> snd s = Inr ()) \<and> list_all is_message (fst s))"

text \<open>The message of the first legacy key that the persisted configuration has.\<close>

definition legacy_message :: "obj \<Rightarrow> string" where
  "legacy_message conf =
     (if has conf ''compileEnhancements'' then compileEnhancements_message
      else if has conf ''helpers'' then helpers_message
      else sources_message)"

text \<open>An effect that is not the construction of a reporter other than the given one.\<close>

fun reporter_is :: "reporter \<Rightarrow> effect \<Rightarrow> bool" where
  "reporter_is sel (NewReporter r) = (r = sel)"
| "reporter_is sel x = True"

section \<open>Example inputs\<close>

definition ex_conf :: obj where
  "ex_conf = [(''files'', JStr ''t.js''), (''tap'', JBool True), (''failFast'', JBool True)]"

definition ex_argv :: obj where
  "ex_argv = [(''tap'', JBool False), (''fail-fast'', JBool False),
              (''node-arguments'', JStr ''--x'')]"

definition ex_env :: env where
  "ex_env =
     \<lparr>is_ci = False, stdout_is_tty = True, chalk_level = 0,
      gray = (\<lambda>level s. s),
      path_join = (\<lambda>parts. case parts of [] \<Rightarrow> ''.''
                            | p # ps \<Rightarrow> foldl (\<lambda>joined q. joined @ CHR ''/'' # q) p ps),
      path_is_absolute = (\<lambda>p. case p of [] \<Rightarrow> False | c # cs \<Rightarrow> c = CHR ''/''),
      del_result = None, read_pkg = PkgMissing,
      babel_provider = Inr JNull, typescript_provider = Inr JNull,
      environment_variables = Inr (JObj []), extensions = Inr (JArr []),
      globs = Inr (JObj []), node_arguments = Inr (JArr []),
      engine_plans = [\<lparr>plan_debug = False, plan_files = [''test.js''], plan_status = []\<rparr>],
      engine_result = Resolved (\<lambda>matching. 0)\<rparr>"

definition ex_project :: obj where
  "ex_project = [(''nonSemVerExperiments'', JObj []), (''projectDir'', JStr ''/p'')]"

definition zero_files_plan :: plan where
  "zero_files_plan = \<lparr>plan_debug = True, plan_files = [], plan_status = []\<rparr>"

definition debug_plan :: plan where
  "debug_plan = \<lparr>plan_debug = True, plan_files = [''test.js''], plan_status = []\<rparr>"

definition zero_files_env :: env where
  "zero_files_env = ex_env\<lparr>engine_plans := [zero_files_plan]\<rparr>"

definition debug_env :: env where
  "debug_env = ex_env\<lparr>engine_plans := [debug_plan]\<rparr>"

definition debug_argv :: obj where
  "debug_argv = [(''pattern'', JArr [JStr ''test.js''])]"

definition watching_project :: obj where
  "watching_project = ex_project @ [(''watch'', JBool True)]"

definition broken_load :: load_result where
  "broken_load = LoadFailed \<lparr>ce_message = ''bad config'', ce_parent = None\<rparr>"

definition interrupted_plan :: plan where
  "interrupted_plan =
     \<lparr>plan_debug = False, plan_files = [''test.js''],
      plan_status = [StateChange (JStr ''worker-failed''), StateChange (JStr ''interrupt''),
                     StateChange (JStr ''worker-finished'')]\<rparr>"

definition helpers_project :: obj where
  "helpers_project = ex_project @ [(''helpers'', JArr [JStr ''test/helpers/**''])]"

definition tap_argv :: obj where
  "tap_argv = [(''tap'', JBool True)]"

definition snapshot_project :: obj where
  "snapshot_project = [(''nonSemVerExperiments'', JObj []), (''snapshotDir'', JStr ''/snaps'')]"

section \<open>Properties of the merge\<close>

lemma assign_flag_length: "length (assign_flag a c h f) = length h"
  by (simp add: assign_flag_def put_prop_def)

lemma foldl_assign_length: "length (foldl (assign_flag a c) h fs) = length h"
  by (induction fs arbitrary: h) (simp_all add: assign_flag_length)

lemma assign_flag_other: "b \<noteq> c \<Longrightarrow> assign_flag a c h f ! b = h ! b"
  by (simp add: assign_flag_def put_prop_def)

lemma foldl_assign_other: "b \<noteq> c \<Longrightarrow> foldl (assign_flag a c) h fs ! b = h ! b"
  by (induction fs arbitrary: h) (simp_all add: assign_flag_other)

lemma assign_flag_target:
  "c < length h \<Longrightarrow> a \<noteq> c \<Longrightarrow> assign_flag a c h f ! c = merge_step (h ! a) (h ! c) f"
  by (simp add: assign_flag_def merge_step_def put_prop_def)

lemma foldl_assign_target:
  "c < length h \<Longrightarrow> a \<noteq> c \<Longrightarrow>
   foldl (assign_flag a c) h fs ! c = foldl (merge_step (h ! a)) (h ! c) fs"
proof (induction fs arbitrary: h)
  case Nil
  then show ?case by simp
next
  case (Cons f fs)
  have len: "c < length (assign_flag a c h f)"
    using Cons.prems(1) by (simp add: assign_flag_length)
  have arg: "assign_flag a c h f ! a = h ! a"
    using Cons.prems(2) by (simp add: assign_flag_other)
  show ?case
    using Cons.IH [OF len Cons.prems(2)] Cons.prems
    by (simp add: arg assign_flag_target)
qed

lemma combined_of_foldl: "combined_of conf argv = foldl (merge_step argv) conf flag_names"
proof -
  have "foldl (assign_flag (Suc 0) (Suc (Suc 0))) [conf, argv, conf] flag_names ! Suc (Suc 0)
        = foldl (merge_step ([conf, argv, conf] ! Suc 0)) ([conf, argv, conf] ! Suc (Suc 0))
            flag_names"
    by (rule foldl_assign_target) simp_all
  then show ?thesis
    by (simp add: combined_of_def build_combined_def spread_copy_def)
qed

lemma merge_step_lookup:
  "map_of (merge_step argv c f) k =
     (if target f = Some k \<and> has argv f then map_of argv f else map_of c k)"
  by (simp add: merge_step_def target_def update_conv' has_def js_get_def split: option.splits)

lemma flag_names_eq:
  "flag_names = [''concurrency'', ''fail-fast'', ''match'', ''node-arguments'', ''serial'',
     ''tap'', ''timeout'', ''update-snapshots'', ''verbose'', ''watch'']"
  by (simp add: flag_names_def FLAGS_def)

lemma foldl_merge_lookup:
  "\<forall>g \<in> set fs. target g = Some k \<longrightarrow> g = f \<Longrightarrow>
   map_of (foldl (merge_step argv) c fs) k =
     (if f \<in> set fs \<and> target f = Some k \<and> has argv f then map_of argv f else map_of c k)"
proof (induction fs arbitrary: c)
  case Nil
  then show ?case by simp
next
  case (Cons g fs)
  have rest: "\<forall>g \<in> set fs. target g = Some k \<longrightarrow> g = f"
    using Cons.prems by simp
  have here: "target g = Some k \<longrightarrow> g = f"
    using Cons.prems by simp
  show ?case
    using here by (auto simp add: Cons.IH [OF rest] merge_step_lookup)
qed

lemma merge_step_ignores_node_arguments:
  "merge_step (AList.update ''node-arguments'' v argv) c f = merge_step argv c f"
proof (cases "f = ''node-arguments''")
  case True
  then show ?thesis by (simp add: merge_step_def)
next
  case False
  then show ?thesis by (simp add: merge_step_def has_def js_get_def update_conv')
qed

lemma combined_direct:
  assumes "f \<in> {''concurrency'', ''match'', ''serial'', ''tap'', ''timeout'', ''verbose'', ''watch''}"
  shows "map_of (combined_of conf argv) f =
           (case map_of argv f of None \<Rightarrow> map_of conf f | Some v \<Rightarrow> Some v)"
proof -
  have uniq: "\<forall>g \<in> set flag_names. target g = Some f \<longrightarrow> g = f"
    using assms by (auto simp add: flag_names_eq target_def)
  have mem: "f \<in> set flag_names" and tgt: "target f = Some f"
    using assms by (auto simp add: flag_names_eq target_def)
  show ?thesis
    by (simp add: combined_of_foldl foldl_merge_lookup [OF uniq] mem tgt has_def
        split: option.splits)
qed

lemma combined_failFast:
  "map_of (combined_of conf argv) ''failFast'' =
     (case map_of argv ''fail-fast'' of None \<Rightarrow> map_of conf ''failFast'' | Some v \<Rightarrow> Some v)"
proof -
  have uniq: "\<forall>g \<in> set flag_names. target g = Some ''failFast'' \<longrightarrow> g = ''fail-fast''"
    by (simp add: flag_names_eq target_def)
  have mem: "''fail-fast'' \<in> set flag_names" and tgt: "target ''fail-fast'' = Some ''failFast''"
    by (simp_all add: flag_names_eq target_def)
  show ?thesis
    by (simp add: combined_of_foldl foldl_merge_lookup [OF uniq] mem tgt has_def
        split: option.splits)
qed

lemma combined_updateSnapshots:
  "map_of (combined_of conf argv) ''updateSnapshots'' =
     (case map_of argv ''update-snapshots'' of None \<Rightarrow> map_of conf ''updateSnapshots''
      | Some v \<Rightarrow> Some v)"
proof -
  have uniq: "\<forall>g \<in> set flag_names. target g = Some ''updateSnapshots'' \<longrightarrow> g = ''update-snapshots''"
    by (simp add: flag_names_eq target_def)
  have mem: "''update-snapshots'' \<in> set flag_names" and tgt: "target ''update-snapshots'' = Some ''updateSnapshots''"
    by (simp_all add: flag_names_eq target_def)
  show ?thesis
    by (simp add: combined_of_foldl foldl_merge_lookup [OF uniq] mem tgt has_def
        split: option.splits)
qed

lemma merge_step_frame: "target f \<noteq> Some k \<Longrightarrow> map_of (merge_step argv c f) k = map_of c k"
  by (simp add: merge_step_lookup)

lemma foldl_merge_frame:
  "\<forall>f \<in> set fs. target f \<noteq> Some k \<Longrightarrow> map_of (foldl (merge_step argv) c fs) k = map_of c k"
  by (induction fs arbitrary: c) (simp_all add: merge_step_frame)

lemma combined_frame:
  assumes "k \<notin> {''concurrency'', ''failFast'', ''match'', ''serial'', ''tap'', ''timeout'',
             ''updateSnapshots'', ''verbose'', ''watch''}"
  shows "map_of (combined_of conf argv) k = map_of conf k"
proof -
  have "\<forall>f \<in> set flag_names. target f \<noteq> Some k"
    using assms by (auto simp add: flag_names_eq target_def)
  then show ?thesis
    by (simp add: combined_of_foldl foldl_merge_frame)
qed

lemma combined_ignores_node_arguments:
  "combined_of conf (AList.update ''node-arguments'' v argv) = combined_of conf argv"
proof -
  have "merge_step (AList.update ''node-arguments'' v argv) = merge_step argv"
    by (intro ext) (rule merge_step_ignores_node_arguments)
  then show ?thesis by (simp add: combined_of_foldl)
qed

lemma flag_names_set: "set flag_names =
     {''concurrency'', ''match'', ''serial'', ''tap'', ''timeout'', ''verbose'', ''watch''}
     \<union> {''fail-fast'', ''update-snapshots'', ''node-arguments''}"
  unfolding flag_names_eq by (simp add: insert_commute)

lemma combined_unwritten:
  "\<forall>k \<in> {''fail-fast'', ''update-snapshots'', ''node-arguments''}.
        map_of (combined_of conf argv) k = map_of conf k"
proof
  fix k :: string
  assume "k \<in> {''fail-fast'', ''update-snapshots'', ''node-arguments''}"
  then have "k \<notin> {''concurrency'', ''failFast'', ''match'', ''serial'', ''tap'', ''timeout'',
             ''updateSnapshots'', ''verbose'', ''watch''}"
    by auto
  then show "map_of (combined_of conf argv) k = map_of conf k"
    by (rule combined_frame)
qed

section \<open>Properties of the steps\<close>

lemma seq_step_Inl: "seq_step (es, Inl f) t = (es, Inl f)"
  by (simp add: seq_step_def and_then_def)

lemma seq_step_Inr: "seq_step (es, Inr u) t = (es @ fst t, snd t)"
  by (simp add: seq_step_def and_then_def split: prod.splits)

lemma seq_step_proceed: "seq_step (proceed u) t = t"
  by (simp add: proceed_def seq_step_Inr)

lemma seq_step_emit: "seq_step (emit x) t = (x # fst t, snd t)"
  by (simp add: emit_def seq_step_Inr)

lemma seq_step_exit: "seq_step (exit_with m) t = exit_with m"
  by (simp add: exit_with_def seq_step_Inl)

lemma seq_step_halt: "seq_step (halt f) t = halt f"
  by (simp add: halt_def seq_step_Inl)

lemma snd_seq_step:
  "snd (seq_step s t) = (case snd s of Inl f \<Rightarrow> Inl f | Inr u \<Rightarrow> snd t)"
  by (cases s) (auto simp add: seq_step_Inl seq_step_Inr split: sum.splits)

lemma fst_seq_step:
  "fst (seq_step s t) = (case snd s of Inl f \<Rightarrow> fst s | Inr u \<Rightarrow> fst s @ fst t)"
  by (cases s) (auto simp add: seq_step_Inl seq_step_Inr split: sum.splits)

lemma set_fst_seq_step: "set (fst (seq_step s t)) \<subseteq> set (fst s) \<union> set (fst t)"
  by (auto simp add: fst_seq_step split: sum.splits)

lemma status_stream_eq:
  "status_stream evts =
     (if \<exists>evt \<in> set evts. evt_type evt = JStr ''interrupt''
      then ([EndRun], Inl (ProcessExit 1)) else ([], Inr ()))"
proof (induction evts)
  case Nil
  then show ?case by (simp add: proceed_def)
next
  case (Cons evt evts)
  show ?case
  proof (cases "evt_type evt = JStr ''interrupt''")
    case True
    then show ?thesis by (simp add: on_stateChange_def seq_step_Inl)
  next
    case False
    then show ?thesis by (simp add: on_stateChange_def seq_step_proceed Cons.IH)
  qed
qed

lemma on_run_eq:
  "on_run p =
     (if \<exists>evt \<in> set (plan_status p). evt_type evt = JStr ''interrupt''
      then ([StartRun p, EndRun], Inl (ProcessExit 1)) else ([StartRun p], Inr ()))"
  by (simp add: on_run_def seq_step_emit status_stream_eq)

lemma drive_runs_clean:
  "\<forall>p \<in> set ps. \<forall>evt \<in> set (plan_status p). evt_type evt \<noteq> JStr ''interrupt'' \<Longrightarrow>
   drive_runs ps flag =
     (map StartRun ps,
      Inr (flag \<or> (\<exists>p \<in> set ps. plan_debug p \<and> length (plan_files p) \<noteq> 1)))"
proof (induction ps arbitrary: flag)
  case Nil
  then show ?case by (simp add: proceed_def)
next
  case (Cons p ps)
  have here: "on_run p = ([StartRun p], Inr ())"
    using Cons.prems by (simp add: on_run_eq)
  have rest: "\<forall>p \<in> set ps. \<forall>evt \<in> set (plan_status p). evt_type evt \<noteq> JStr ''interrupt''"
    using Cons.prems by simp
  show ?case
    by (auto simp add: here seq_step_Inr Cons.IH [OF rest])
qed

lemma drive_runs_interrupt:
  "\<exists>p \<in> set ps. \<exists>evt \<in> set (plan_status p). evt_type evt = JStr ''interrupt'' \<Longrightarrow>
   snd (drive_runs ps flag) = Inl (ProcessExit 1)"
proof (induction ps arbitrary: flag)
  case Nil
  then show ?case by simp
next
  case (Cons p ps)
  show ?case
  proof (cases "\<exists>evt \<in> set (plan_status p). evt_type evt = JStr ''interrupt''")
    case True
    then show ?thesis by (simp add: on_run_eq seq_step_Inl)
  next
    case False
    then have "\<exists>p \<in> set ps. \<exists>evt \<in> set (plan_status p). evt_type evt = JStr ''interrupt''"
      using Cons.prems by auto
    then show ?thesis
      using False by (simp add: on_run_eq seq_step_Inr Cons.IH)
  qed
qed

lemma drive_runs_effects:
  "set (fst (drive_runs ps flag)) \<subseteq> range StartRun \<union> {EndRun}"
proof (induction ps arbitrary: flag)
  case Nil
  then show ?case by (simp add: proceed_def)
next
  case (Cons p ps)
  have "set (fst (on_run p)) \<subseteq> range StartRun \<union> {EndRun}"
    by (auto simp add: on_run_eq)
  then show ?case
    using Cons.IH set_fst_seq_step [of "on_run p"] by (simp del: drive_runs.simps add: drive_runs.simps(2)) blast
qed

lemmas run_defs = run_def Let_def conf_of_def confError_of_def debug_of_def chalk_options_level_def
  report_confError_def reset_cache_def validate_and_run_def mode_checks_def watch_checks_def
  debug_checks_def concurrency_check_def concurrency_invalid_def experiments_notice_def
  legacy_checks_def after_concurrency_def read_manifest_def prepare_def or_exit_def
  resolve_filter_def input_of_def new_api_def snapshotDir_resolves_def options_of_def report_and_run_def
  select_reporter_def watch_mode_def one_shot_def on_run_eq match_of_def arrify_def js_or_def
  when_do_def seq_step_Inl seq_step_Inr and_then_def proceed_def emit_def exit_with_def halt_def
  has_def js_get_def combined_of_foldl flag_names_eq merge_step_def

lemma watch_runs_clean:
  "\<forall>p \<in> set ps. \<forall>evt \<in> set (plan_status p). evt_type evt \<noteq> JStr ''interrupt'' \<Longrightarrow>
   watch_runs ps = (map StartRun ps, Inr ())"
proof (induction ps)
  case Nil
  then show ?case by (simp add: proceed_def)
next
  case (Cons p ps)
  have here: "on_run p = ([StartRun p], Inr ())"
    using Cons.prems by (simp add: on_run_eq)
  have rest: "\<forall>p \<in> set ps. \<forall>evt \<in> set (plan_status p). evt_type evt \<noteq> JStr ''interrupt''"
    using Cons.prems by simp
  show ?case
    by (simp add: here seq_step_Inr Cons.IH [OF rest])
qed

lemma drive_runs_interrupted:
  assumes "\<forall>p \<in> set qs. \<forall>evt \<in> set (plan_status p). evt_type evt \<noteq> JStr ''interrupt''"
    and "\<exists>evt \<in> set (plan_status p). evt_type evt = JStr ''interrupt''"
  shows "drive_runs (qs @ p # rs) flag = (map StartRun qs @ [StartRun p, EndRun], Inl (ProcessExit 1))"
  using assms(1)
proof (induction qs arbitrary: flag)
  case Nil
  show ?case using assms(2) by (simp add: on_run_eq seq_step_Inl)
next
  case (Cons q qs)
  have here: "on_run q = ([StartRun q], Inr ())"
    using Cons.prems by (simp add: on_run_eq)
  have rest: "\<forall>p \<in> set qs. \<forall>evt \<in> set (plan_status p). evt_type evt \<noteq> JStr ''interrupt''"
    using Cons.prems by simp
  show ?case
    by (simp add: here seq_step_Inr Cons.IH [OF rest])
qed

lemma watch_runs_interrupted:
  assumes "\<forall>p \<in> set qs. \<forall>evt \<in> set (plan_status p). evt_type evt \<noteq> JStr ''interrupt''"
    and "\<exists>evt \<in> set (plan_status p). evt_type evt = JStr ''interrupt''"
  shows "watch_runs (qs @ p # rs) = (map StartRun qs @ [StartRun p, EndRun], Inl (ProcessExit 1))"
  using assms(1)
proof (induction qs)
  case Nil
  show ?case using assms(2) by (simp add: on_run_eq seq_step_Inl)
next
  case (Cons q qs)
  have here: "on_run q = ([StartRun q], Inr ())"
    using Cons.prems by (simp add: on_run_eq)
  have rest: "\<forall>p \<in> set qs. \<forall>evt \<in> set (plan_status p). evt_type evt \<noteq> JStr ''interrupt''"
    using Cons.prems by simp
  show ?case
    by (simp add: here seq_step_Inr Cons.IH [OF rest])
qed

lemma one_shot_interrupted:
  assumes "engine_plans e = qs @ p # rs"
    and "\<forall>p \<in> set qs. \<forall>evt \<in> set (plan_status p). evt_type evt \<noteq> JStr ''interrupt''"
    and "\<exists>evt \<in> set (plan_status p). evt_type evt = JStr ''interrupt''"
  shows "one_shot e m = (ApiRun # map StartRun qs @ [StartRun p, EndRun], Inl (ProcessExit 1))"
  by (simp add: one_shot_def assms(1) drive_runs_interrupted [OF assms(2,3)] seq_step_emit
      and_then_def)

lemma watch_mode_interrupted:
  assumes "engine_plans e = qs @ p # rs"
    and "\<forall>p \<in> set qs. \<forall>evt \<in> set (plan_status p). evt_type evt \<noteq> JStr ''interrupt''"
    and "\<exists>evt \<in> set (plan_status p). evt_type evt = JStr ''interrupt''"
  shows "watch_mode e =
           (NewWatcher # ObserveStdin # map StartRun qs @ [StartRun p, EndRun],
            Inl (ProcessExit 1))"
  by (simp add: watch_mode_def assms(1) watch_runs_interrupted [OF assms(2,3)] seq_step_emit)

lemma one_shot_clean:
  assumes "\<forall>p \<in> set (engine_plans e). \<forall>evt \<in> set (plan_status p). evt_type evt \<noteq> JStr ''interrupt''"
    and "engine_result e = Resolved suggestExitCode"
  shows "one_shot e m =
     (if \<exists>p \<in> set (engine_plans e). plan_debug p \<and> length (plan_files p) \<noteq> 1
      then (ApiRun # map StartRun (engine_plans e) @ [Diagnostic debug_path_message],
            Inl (ProcessExit 1))
      else (ApiRun # map StartRun (engine_plans e)
              @ [SetExitCode (suggestExitCode (m \<noteq> [])), EndRun], Inr ()))"
  by (simp add: one_shot_def drive_runs_clean [OF assms(1)] assms(2) seq_step_emit and_then_def
      exit_with_def)

lemma run_load_failed:
  "run e (LoadFailed err) cmd argv =
     ([Diagnostic
         (case ce_parent err of
            None \<Rightarrow> ce_message err
          | Some p \<Rightarrow>
              ce_message err @ blank_line
              @ gray e (chalk_options_level e (combined_of [] argv)) (cause_text p))],
      Inl (ProcessExit 1))"
  by (simp add: run_def Let_def conf_of_def confError_of_def report_confError_def exit_with_def
      seq_step_Inl split: option.splits)

lemma run_loaded:
  "cmd \<noteq> ResetCacheCmd \<Longrightarrow>
   run e (Loaded conf) cmd argv =
     (Notify # fst (validate_and_run e conf argv (combined_of conf argv) (debug_of cmd argv)),
      snd (validate_and_run e conf argv (combined_of conf argv) (debug_of cmd argv)))"
  by (simp add: run_def Let_def conf_of_def confError_of_def report_confError_def
      seq_step_proceed seq_step_emit)

lemma nonneg_integer_iff:
  "(of_int \<lfloor>q\<rfloor> = q \<and> \<not> q < 0) = (\<exists>n::nat. q = of_nat n)" for q :: rat
proof
  assume a: "of_int \<lfloor>q\<rfloor> = q \<and> \<not> q < 0"
  have z: "0 \<le> \<lfloor>q\<rfloor>" using a [THEN conjunct2] by (simp add: not_less)
  have "q = of_int \<lfloor>q\<rfloor>" by (rule a [THEN conjunct1, symmetric])
  also have "\<dots> = of_nat (nat \<lfloor>q\<rfloor>)" using z by (rule of_nat_nat [symmetric])
  finally have "q = of_nat (nat \<lfloor>q\<rfloor>)" .
  then show "\<exists>n::nat. q = of_nat n" ..
next
  assume "\<exists>n::nat. q = of_nat n"
  then obtain n :: nat where "q = of_nat n" ..
  then show "of_int \<lfloor>q\<rfloor> = q \<and> \<not> q < 0" by simp
qed

lemma concurrency_invalid_iff:
  "concurrency_invalid v = (\<not> (\<exists>n::nat. v = JNum (Fin (of_nat n))))"
proof (cases v)
  case (JNum x)
  then show ?thesis
  proof (cases x)
    case (Fin q)
    have "(\<not> (of_int \<lfloor>q\<rfloor> = q \<and> \<not> q < 0)) = (\<not> (\<exists>n::nat. q = of_nat n))"
      by (simp only: nonneg_integer_iff)
    then show ?thesis using JNum Fin by (auto simp add: concurrency_invalid_def)
  qed (simp_all add: concurrency_invalid_def)
qed (simp_all add: concurrency_invalid_def)

lemma concurrency_check_eq:
  "concurrency_check combined =
     (case map_of combined ''concurrency'' of
        None \<Rightarrow> ([], Inr ())
      | Some v \<Rightarrow>
          if \<exists>n::nat. v = JNum (Fin (of_nat n)) then ([], Inr ())
          else ([Diagnostic concurrency_message], Inl (ProcessExit 1)))"
  by (simp add: concurrency_check_def when_do_def has_def js_get_def concurrency_invalid_iff
      proceed_def exit_with_def split: option.splits)

lemma combined_get_direct:
  assumes "f \<in> {''concurrency'', ''match'', ''serial'', ''tap'', ''timeout'', ''verbose'', ''watch''}"
    and "has argv f"
  shows "js_get (combined_of conf argv) f = js_get argv f"
  using assms(2) by (auto simp add: js_get_def has_def combined_direct [OF assms(1)])

lemma watch_checks_eq:
  "truthy (js_get argv ''watch'') \<Longrightarrow>
   watch_checks e argv conf debug =
     (if truthy (js_get argv ''tap'') \<and> \<not> truthy (js_get conf ''tap'')
      then exit_with ''The TAP reporter is not available when using watch mode.''
      else if is_ci e
      then exit_with ''Watch mode is not available in CI, as it prevents AVA from terminating.''
      else if debug \<noteq> None then exit_with ''Watch mode is not available when debugging.''
      else ([], Inr ()))"
  by (simp add: watch_checks_def when_do_def seq_step_Inr seq_step_Inl proceed_def exit_with_def)

lemma validate_exit_early:
  "watch_checks e argv conf debug = exit_with m \<Longrightarrow>
   validate_and_run e conf argv combined debug = ([Diagnostic m], Inl (ProcessExit 1))"
  by (simp add: validate_and_run_def mode_checks_def seq_step_exit) (simp add: exit_with_def)

lemma validate_after_mode_checks:
  "mode_checks e argv conf combined debug = (es, Inr ()) \<Longrightarrow>
   validate_and_run e conf argv combined debug =
     (case map_of combined ''concurrency'' of
        None \<Rightarrow>
          (es @ fst (after_concurrency e conf argv combined debug),
           snd (after_concurrency e conf argv combined debug))
      | Some v \<Rightarrow>
          if \<exists>n::nat. v = JNum (Fin (of_nat n))
          then (es @ fst (after_concurrency e conf argv combined debug),
                snd (after_concurrency e conf argv combined debug))
          else (es @ [Diagnostic concurrency_message], Inl (ProcessExit 1)))"
  by (simp add: validate_and_run_def concurrency_check_eq seq_step_Inr seq_step_Inl
      split: option.splits)

lemma concurrency_message_text:
  "concurrency_message =
     ''The --concurrency or -c flag must be provided with a '' @ ''nonnegative integer'' @ ''.''"
  by (simp add: concurrency_message_def)

lemma checks_only_proceed: "checks_only (proceed ())"
  by (simp add: checks_only_def proceed_def)

lemma checks_only_exit: "checks_only (exit_with m)"
  by (simp add: checks_only_def exit_with_def)

lemma checks_only_warning: "checks_only (emit (Warning m))"
  by (simp add: checks_only_def emit_def)

lemma checks_only_when: "checks_only s \<Longrightarrow> checks_only (when_do b s)"
  by (simp add: when_do_def checks_only_proceed)

lemma checks_only_seq: "checks_only s \<Longrightarrow> checks_only t \<Longrightarrow> checks_only (seq_step s t)"
  by (cases s) (auto simp add: checks_only_def seq_step_Inl seq_step_Inr)

lemmas checks_only_intros = checks_only_seq checks_only_when checks_only_proceed
  checks_only_exit checks_only_warning

lemma checks_only_watch: "checks_only (watch_checks e argv conf debug)"
  by (simp add: watch_checks_def checks_only_intros)

lemma checks_only_debug: "checks_only (debug_checks e argv conf combined debug)"
  by (simp add: debug_checks_def checks_only_intros)

lemma checks_only_mode: "checks_only (mode_checks e argv conf combined debug)"
  by (simp add: mode_checks_def checks_only_seq checks_only_watch checks_only_debug)

lemma checks_only_concurrency: "checks_only (concurrency_check combined)"
  by (simp add: concurrency_check_def checks_only_intros)

lemma checks_only_experiments:
  "truthy (js_get combined ''tap'') \<or> key_count experiments \<noteq> None \<Longrightarrow>
   checks_only (experiments_notice combined experiments)"
  by (auto simp add: experiments_notice_def checks_only_intros)

lemma experiments_notice_cases:
  "checks_only (experiments_notice combined experiments)
   \<or> experiments_notice combined experiments = ([], Inl Threw)"
  by (cases "key_count experiments")
     (auto simp add: experiments_notice_def checks_only_intros halt_def)

lemma legacy_checks_exit:
  "has conf ''compileEnhancements'' \<or> has conf ''helpers'' \<or> has conf ''sources'' \<Longrightarrow>
   legacy_checks conf = ([Diagnostic (legacy_message conf)], Inl (ProcessExit 1))"
  by (auto simp add: legacy_checks_def legacy_message_def when_do_def seq_step_Inl seq_step_Inr
      exit_with_def proceed_def)

lemma legacy_checks_pass:
  "\<not> has conf ''compileEnhancements'' \<Longrightarrow> \<not> has conf ''helpers'' \<Longrightarrow> \<not> has conf ''sources'' \<Longrightarrow>
   legacy_checks conf = ([], Inr ())"
  by (simp add: legacy_checks_def when_do_def seq_step_Inr proceed_def)

lemma legacy_messages_distinct:
  "compileEnhancements_message \<noteq> helpers_message
   \<and> compileEnhancements_message \<noteq> sources_message
   \<and> helpers_message \<noteq> sources_message"
  by (simp add: compileEnhancements_message_def helpers_message_def sources_message_def)

lemma seq_then_exit:
  assumes "checks_only s" and "snd t = Inl (ProcessExit 1)" and "list_all is_message (fst t)"
  shows "snd (seq_step s t) = Inl (ProcessExit 1) \<and> list_all is_message (fst (seq_step s t))"
  using assms by (cases s) (auto simp add: checks_only_def seq_step_Inl seq_step_Inr)

lemma seq_step_assoc: "seq_step (seq_step a b) c = seq_step a (seq_step b c)"
  by (auto simp add: seq_step_def and_then_def split: prod.splits sum.splits)

lemma seq_then_threw:
  assumes "checks_only s"
  shows "(snd (seq_step s ([], Inl Threw)) = Inl (ProcessExit 1)
          \<or> snd (seq_step s ([], Inl Threw)) = Inl Threw)
         \<and> list_all is_message (fst (seq_step s ([], Inl Threw)))"
  using assms by (cases s) (auto simp add: checks_only_def seq_step_Inl seq_step_Inr)

lemma validate_and_run_split:
  "validate_and_run e conf argv combined debug =
     seq_step
       (seq_step (mode_checks e argv conf combined debug)
          (seq_step (concurrency_check combined)
             (experiments_notice combined (js_get conf ''nonSemVerExperiments''))))
       (seq_step (legacy_checks conf)
          (seq_step (read_manifest e)
             (seq_step (prepare e conf)
                (seq_step (resolve_filter (js_get conf ''projectDir'') (input_of debug argv))
                   (seq_step (new_api e combined (js_get conf ''projectDir'') debug)
                      (report_and_run e combined debug))))))"
  by (simp add: validate_and_run_def after_concurrency_def seq_step_assoc)

lemma legacy_stops_run:
  assumes "has conf ''compileEnhancements'' \<or> has conf ''helpers'' \<or> has conf ''sources''"
  shows "seq_step (legacy_checks conf) rest = ([Diagnostic (legacy_message conf)], Inl (ProcessExit 1))"
  by (simp add: legacy_checks_exit [OF assms] seq_step_Inl)

lemma validate_legacy_fatal:
  assumes "has conf ''compileEnhancements'' \<or> has conf ''helpers'' \<or> has conf ''sources''"
    and "truthy (js_get combined ''tap'') \<or> key_count (js_get conf ''nonSemVerExperiments'') \<noteq> None"
  shows "snd (validate_and_run e conf argv combined debug) = Inl (ProcessExit 1)
         \<and> list_all is_message (fst (validate_and_run e conf argv combined debug))"
proof -
  have "checks_only
          (seq_step (mode_checks e argv conf combined debug)
             (seq_step (concurrency_check combined)
                (experiments_notice combined (js_get conf ''nonSemVerExperiments''))))"
    by (intro checks_only_seq checks_only_mode checks_only_concurrency
        checks_only_experiments assms(2))
  then show ?thesis
    unfolding validate_and_run_split legacy_stops_run [OF assms(1)]
    by (intro seq_then_exit) simp_all
qed

lemma validate_legacy_never_prepares:
  assumes "has conf ''compileEnhancements'' \<or> has conf ''helpers'' \<or> has conf ''sources''"
  shows "(snd (validate_and_run e conf argv combined debug) = Inl (ProcessExit 1)
          \<or> snd (validate_and_run e conf argv combined debug) = Inl Threw)
         \<and> list_all is_message (fst (validate_and_run e conf argv combined debug))"
proof -
  let ?x = "experiments_notice combined (js_get conf ''nonSemVerExperiments'')"
  have pre: "checks_only (seq_step (mode_checks e argv conf combined debug)
                            (concurrency_check combined))"
    by (intro checks_only_seq checks_only_mode checks_only_concurrency)
  consider (ok) "checks_only ?x" | (threw) "?x = ([], Inl Threw)"
    using experiments_notice_cases by blast
  then show ?thesis
  proof cases
    case ok
    have "checks_only
          (seq_step (mode_checks e argv conf combined debug)
             (seq_step (concurrency_check combined) ?x))"
      by (intro checks_only_seq checks_only_mode checks_only_concurrency ok)
    then have "snd (validate_and_run e conf argv combined debug) = Inl (ProcessExit 1)
         \<and> list_all is_message (fst (validate_and_run e conf argv combined debug))"
      unfolding validate_and_run_split legacy_stops_run [OF assms(1)]
      by (intro seq_then_exit) simp_all
    then show ?thesis by simp
  next
    case threw
    have "validate_and_run e conf argv combined debug =
            seq_step (seq_step (mode_checks e argv conf combined debug)
                        (concurrency_check combined)) ([], Inl Threw)"
      by (simp add: validate_and_run_def after_concurrency_def threw seq_step_Inl seq_step_assoc)
    then show ?thesis
      using seq_then_threw [OF pre] by simp
  qed
qed

lemma all_seq:
  "list_all P (fst s) \<Longrightarrow> list_all P (fst t) \<Longrightarrow> list_all P (fst (seq_step s t))"
  by (cases s) (auto simp add: seq_step_def and_then_def split: sum.splits prod.splits)

lemma all_and_then:
  "list_all P (fst s) \<Longrightarrow> (\<And>x. list_all P (fst (k x))) \<Longrightarrow> list_all P (fst (and_then s k))"
proof (cases s)
  case (Pair es r)
  assume a: "list_all P (fst s)" and b: "\<And>x. list_all P (fst (k x))"
  show ?thesis
  proof (cases r)
    case (Inl f)
    then show ?thesis using a Pair by (simp add: and_then_def)
  next
    case (Inr x)
    have "list_all P (fst (k x))" by (rule b)
    then show ?thesis using a Pair Inr by (auto simp add: and_then_def split: prod.splits)
  qed
qed

lemma all_when: "list_all P (fst s) \<Longrightarrow> list_all P (fst (when_do b s))"
  by (simp add: when_do_def proceed_def)

lemma all_proceed: "list_all P (fst (proceed x))"
  by (simp add: proceed_def)

lemma all_halt: "list_all P (fst (halt f))"
  by (simp add: halt_def)

lemma all_exit: "P (Diagnostic m) \<Longrightarrow> list_all P (fst (exit_with m))"
  by (simp add: exit_with_def)

lemma all_emit: "P x \<Longrightarrow> list_all P (fst (emit x))"
  by (simp add: emit_def)

lemma all_checks_only:
  "checks_only s \<Longrightarrow> list_all (reporter_is sel) (fst s)"
proof -
  have "is_message x \<Longrightarrow> reporter_is sel x" for x
    by (cases x) simp_all
  then show "checks_only s \<Longrightarrow> list_all (reporter_is sel) (fst s)"
    by (auto simp add: checks_only_def list_all_iff)
qed

lemma all_experiments:
  "list_all (reporter_is sel) (fst (experiments_notice combined experiments))"
  using experiments_notice_cases [of combined experiments]
  by (auto simp add: all_checks_only)

lemma all_or_exit: "list_all (reporter_is sel) (fst (or_exit r))"
  by (cases r) (simp_all add: or_exit_def all_exit all_proceed)

lemma all_legacy: "list_all (reporter_is sel) (fst (legacy_checks conf))"
  by (simp add: legacy_checks_def all_seq all_when all_exit)

lemma all_prepare: "list_all (reporter_is sel) (fst (prepare e conf))"
  by (simp add: prepare_def all_seq all_when all_or_exit)

lemma all_manifest: "list_all (reporter_is sel) (fst (read_manifest e))"
  by (cases "read_pkg e") (simp_all add: read_manifest_def all_halt all_proceed)

lemma all_filter: "list_all (reporter_is sel) (fst (resolve_filter d i))"
  by (cases i) (simp_all add: resolve_filter_def all_halt all_proceed)

lemma all_new_api: "list_all (reporter_is sel) (fst (new_api e combined d debug))"
  by (simp add: new_api_def all_halt all_emit)

lemma all_status: "list_all (reporter_is sel) (fst (status_stream evts))"
  by (simp add: status_stream_eq)

lemma all_on_run: "list_all (reporter_is sel) (fst (on_run p))"
  by (simp add: on_run_eq)

lemma all_watch_runs: "list_all (reporter_is sel) (fst (watch_runs ps))"
  by (induction ps) (simp_all add: all_proceed all_seq all_on_run)

lemma all_drive_runs: "list_all (reporter_is sel) (fst (drive_runs ps flag))"
  by (induction ps arbitrary: flag) (simp_all add: all_proceed all_seq all_on_run)

lemma all_watch_mode: "list_all (reporter_is sel) (fst (watch_mode e))"
  by (simp add: watch_mode_def all_seq all_emit all_watch_runs)

lemma all_one_shot: "list_all (reporter_is sel) (fst (one_shot e m))"
  unfolding one_shot_def
  by (intro all_seq all_emit all_and_then all_drive_runs)
     (simp_all add: all_halt all_exit split: run_result.splits)

lemma all_report_and_run:
  "list_all (reporter_is (select_reporter e combined debug)) (fst (report_and_run e combined debug))"
  by (simp add: report_and_run_def all_seq all_emit all_watch_mode all_one_shot)

lemma all_reset_cache: "list_all (reporter_is sel) (fst (reset_cache e g d))"
  by (cases d) (simp_all add: reset_cache_def Let_def all_halt all_seq all_emit all_exit
      split: option.splits)

lemma all_report_confError: "list_all (reporter_is sel) (fst (report_confError g ce))"
  by (simp add: report_confError_def all_proceed all_exit split: option.splits)

lemma all_validate_and_run:
  "list_all (reporter_is (select_reporter e combined debug))
     (fst (validate_and_run e conf argv combined debug))"
  unfolding validate_and_run_def after_concurrency_def
  by (intro all_seq all_checks_only checks_only_mode checks_only_concurrency all_experiments
      all_legacy all_manifest all_prepare all_filter all_new_api all_report_and_run)

lemma all_run:
  "list_all (reporter_is (select_reporter e (combined_of (conf_of ld) argv) (debug_of cmd argv)))
     (fst (run e ld cmd argv))"
  by (simp add: run_def Let_def all_seq all_emit all_reset_cache all_report_confError
      all_validate_and_run)

lemma watch_checks_skipped:
  "\<not> truthy (js_get argv ''watch'') \<Longrightarrow> watch_checks e argv conf debug = ([], Inr ())"
  by (simp add: watch_checks_def proceed_def)

lemma new_api_absolute_snapshotDir:
  "new_api ex_env snapshot_project (js_get snapshot_project ''projectDir'') None
     = ([NewApi (options_of ex_env snapshot_project None)], Inr ())"
  by (simp add: new_api_def snapshotDir_resolves_def snapshot_project_def ex_env_def js_get_def
      emit_def)

section \<open>Claims about the merge\<close>

text \<open>
  C1. The merged configuration takes the command-line value of every recognized flag that
  is present and keeps the persisted value of every flag that is absent: the seven flags
  stored under their own name, \<open>fail-fast\<close> stored as \<open>failFast\<close> and \<open>update-snapshots\<close>
  stored as \<open>updateSnapshots\<close>. The merge never writes the properties \<open>fail-fast\<close>,
  \<open>update-snapshots\<close> and \<open>node-arguments\<close>, and the merged configuration does not
  depend on the value of the \<open>node-arguments\<close> flag at all.
\<close>

theorem merge_precedence:
  "set flag_names =
     {''concurrency'', ''match'', ''serial'', ''tap'', ''timeout'', ''verbose'', ''watch''}
     \<union> {''fail-fast'', ''update-snapshots'', ''node-arguments''}
   \<and> (\<forall>flag \<in> {''concurrency'', ''match'', ''serial'', ''tap'', ''timeout'', ''verbose'', ''watch''}.
        map_of (combined_of conf argv) flag =
          (case map_of argv flag of None \<Rightarrow> map_of conf flag | Some v \<Rightarrow> Some v))
   \<and> map_of (combined_of conf argv) ''failFast'' =
        (case map_of argv ''fail-fast'' of None \<Rightarrow> map_of conf ''failFast'' | Some v \<Rightarrow> Some v)
   \<and> map_of (combined_of conf argv) ''updateSnapshots'' =
        (case map_of argv ''update-snapshots'' of
           None \<Rightarrow> map_of conf ''updateSnapshots'' | Some v \<Rightarrow> Some v)
   \<and> (\<forall>k \<in> {''fail-fast'', ''update-snapshots'', ''node-arguments''}.
        map_of (combined_of conf argv) k = map_of conf k)
   \<and> combined_of conf (AList.update ''node-arguments'' v argv) = combined_of conf argv"
proof (intro conjI)
  show "set flag_names =
     {''concurrency'', ''match'', ''serial'', ''tap'', ''timeout'', ''verbose'', ''watch''}
     \<union> {''fail-fast'', ''update-snapshots'', ''node-arguments''}"
    by (rule flag_names_set)
  show "\<forall>flag \<in> {''concurrency'', ''match'', ''serial'', ''tap'', ''timeout'', ''verbose'', ''watch''}.
        map_of (combined_of conf argv) flag =
          (case map_of argv flag of None \<Rightarrow> map_of conf flag | Some v \<Rightarrow> Some v)"
    by (intro ballI) (rule combined_direct)
  show "map_of (combined_of conf argv) ''failFast'' =
        (case map_of argv ''fail-fast'' of None \<Rightarrow> map_of conf ''failFast'' | Some v \<Rightarrow> Some v)"
    by (rule combined_failFast)
  show "map_of (combined_of conf argv) ''updateSnapshots'' =
        (case map_of argv ''update-snapshots'' of
           None \<Rightarrow> map_of conf ''updateSnapshots'' | Some v \<Rightarrow> Some v)"
    by (rule combined_updateSnapshots)
  show "\<forall>k \<in> {''fail-fast'', ''update-snapshots'', ''node-arguments''}.
        map_of (combined_of conf argv) k = map_of conf k"
    by (rule combined_unwritten)
  show "combined_of conf (AList.update ''node-arguments'' v argv) = combined_of conf argv"
    by (rule combined_ignores_node_arguments)
qed

theorem merge_precedence_witness:
  "map_of (combined_of ex_conf ex_argv) ''tap'' = Some (JBool False)
   \<and> map_of (combined_of ex_conf ex_argv) ''failFast'' = Some (JBool False)
   \<and> map_of (combined_of ex_conf ex_argv) ''node-arguments'' = None"
proof -
  note t = merge_precedence [of ex_conf ex_argv]
  have direct: "\<forall>flag \<in> {''concurrency'', ''match'', ''serial'', ''tap'', ''timeout'', ''verbose'', ''watch''}.
        map_of (combined_of ex_conf ex_argv) flag =
          (case map_of ex_argv flag of None \<Rightarrow> map_of ex_conf flag | Some v \<Rightarrow> Some v)"
    by (rule t [THEN conjunct2, THEN conjunct1])
  have "map_of (combined_of ex_conf ex_argv) ''tap'' =
          (case map_of ex_argv ''tap'' of None \<Rightarrow> map_of ex_conf ''tap'' | Some v \<Rightarrow> Some v)"
    by (rule direct [rule_format]) simp
  then have a: "map_of (combined_of ex_conf ex_argv) ''tap'' = Some (JBool False)"
    by (simp add: ex_argv_def)
  have "map_of (combined_of ex_conf ex_argv) ''failFast'' =
        (case map_of ex_argv ''fail-fast'' of None \<Rightarrow> map_of ex_conf ''failFast'' | Some v \<Rightarrow> Some v)"
    by (rule t [THEN conjunct2, THEN conjunct2, THEN conjunct1])
  then have b: "map_of (combined_of ex_conf ex_argv) ''failFast'' = Some (JBool False)"
    by (simp add: ex_argv_def)
  have unwritten: "\<forall>k \<in> {''fail-fast'', ''update-snapshots'', ''node-arguments''}.
        map_of (combined_of ex_conf ex_argv) k = map_of ex_conf k"
    by (rule t [THEN conjunct2, THEN conjunct2, THEN conjunct2, THEN conjunct2, THEN conjunct1])
  have "map_of (combined_of ex_conf ex_argv) ''node-arguments'' = map_of ex_conf ''node-arguments''"
    by (rule unwritten [rule_format]) simp
  then have c: "map_of (combined_of ex_conf ex_argv) ''node-arguments'' = None"
    by (simp add: ex_conf_def)
  show ?thesis using a b c by simp
qed

text \<open>
  C10, as the code has it. The merge allocates the merged configuration and writes to
  nothing else: every object of the store, the persisted configuration and the parsed
  arguments among them, is as before. Every key that is neither one of the ten flag names
  nor one of the two renamed fields \<open>failFast\<close> and \<open>updateSnapshots\<close> has in the merged
  configuration exactly the entry it has in the persisted one, whatever the arguments.
\<close>

theorem merge_frame:
  assumes "conf < length h" and "argv < length h"
    and "build_combined h conf argv = (h', combined)"
  shows "(\<forall>a < length h. h' ! a = h ! a)
         \<and> combined = length h
         \<and> h' ! combined = combined_of (h ! conf) (h ! argv)
         \<and> (\<forall>k. k \<notin> set flag_names \<and> k \<noteq> ''failFast'' \<and> k \<noteq> ''updateSnapshots'' \<longrightarrow>
                map_of (h' ! combined) k = map_of (h ! conf) k)"
proof -
  let ?h1 = "h @ [h ! conf]"
  have c: "combined = length h" and h': "h' = foldl (assign_flag argv (length h)) ?h1 flag_names"
    using assms(3) by (auto simp add: build_combined_def spread_copy_def)
  have old: "\<forall>a < length h. h' ! a = h ! a"
    by (simp add: h' foldl_assign_other nth_append)
  have "h' ! length h = foldl (merge_step (?h1 ! argv)) (?h1 ! length h) flag_names"
    unfolding h' using assms(2) by (intro foldl_assign_target) simp_all
  then have new: "h' ! combined = combined_of (h ! conf) (h ! argv)"
    using assms(2) by (simp add: c combined_of_foldl nth_append)
  have frame: "\<forall>k. k \<notin> set flag_names \<and> k \<noteq> ''failFast'' \<and> k \<noteq> ''updateSnapshots'' \<longrightarrow>
                map_of (h' ! combined) k = map_of (h ! conf) k"
  proof (intro allI impI)
    fix k :: string
    assume "k \<notin> set flag_names \<and> k \<noteq> ''failFast'' \<and> k \<noteq> ''updateSnapshots''"
    then have "k \<notin> {''concurrency'', ''failFast'', ''match'', ''serial'', ''tap'', ''timeout'',
             ''updateSnapshots'', ''verbose'', ''watch''}"
      by (simp add: flag_names_eq)
    then show "map_of (h' ! combined) k = map_of (h ! conf) k"
      unfolding new by (rule combined_frame)
  qed
  show ?thesis
    using old c new frame by (intro conjI)
qed

theorem merge_frame_witness:
  "fst (build_combined [ex_conf, ex_argv] 0 1) ! 0 = ex_conf
   \<and> fst (build_combined [ex_conf, ex_argv] 0 1) ! 1 = ex_argv
   \<and> map_of (fst (build_combined [ex_conf, ex_argv] 0 1) ! snd (build_combined [ex_conf, ex_argv] 0 1))
        ''files'' = Some (JStr ''t.js'')"
proof -
  let ?r = "build_combined [ex_conf, ex_argv] 0 1"
  have eq: "?r = (fst ?r, snd ?r)" by simp
  have l0: "0 < length [ex_conf, ex_argv]" and l1: "1 < length [ex_conf, ex_argv]" by simp_all
  note t = merge_frame [OF l0 l1 eq]
  have old: "\<forall>a < length [ex_conf, ex_argv]. fst ?r ! a = [ex_conf, ex_argv] ! a"
    by (rule t [THEN conjunct1])
  have a: "fst ?r ! 0 = ex_conf" using old [rule_format, of 0] by simp
  have b: "fst ?r ! 1 = ex_argv" using old [rule_format, of 1] by simp
  have fr: "\<forall>k. k \<notin> set flag_names \<and> k \<noteq> ''failFast'' \<and> k \<noteq> ''updateSnapshots'' \<longrightarrow>
                map_of (fst ?r ! snd ?r) k = map_of ([ex_conf, ex_argv] ! 0) k"
    by (rule t [THEN conjunct2, THEN conjunct2, THEN conjunct2])
  have "map_of (fst ?r ! snd ?r) ''files'' = map_of ([ex_conf, ex_argv] ! 0) ''files''"
    by (rule fr [rule_format]) (simp add: flag_names_eq)
  then have c: "map_of (fst ?r ! snd ?r) ''files'' = Some (JStr ''t.js'')"
    by (simp add: ex_conf_def)
  show ?thesis using a b c by simp
qed

text \<open>
  C10 as stated fails: \<open>failFast\<close> is not one of the ten flag names, yet the flag
  \<open>fail-fast\<close> on the command line replaces its persisted value.
\<close>

theorem merge_frame_counterexample:
  "''failFast'' \<notin> set flag_names
   \<and> map_of [(''failFast'', JBool True)] ''failFast'' = Some (JBool True)
   \<and> map_of (combined_of [(''failFast'', JBool True)] [(''fail-fast'', JBool False)]) ''failFast''
       = Some (JBool False)"
  by (simp add: combined_failFast flag_names_eq)
section \<open>Claims about the run\<close>

text \<open>
  C8. The listener of a plan's status stream ends the reporter's run view and exits the
  process with code 1 exactly when the type of the event is \<open>interrupt\<close>; on any other
  event it does nothing. So a status stream exits at its first interrupt and not at all
  without one. In both modes the interrupt preempts the run: of the plans \<open>qs @ p # rs\<close>,
  with the first interrupt on the stream of \<open>p\<close>, the later plans and the result of the
  engine are never looked at. Without an interrupt the listeners never end the run view
  and never exit.
\<close>

theorem interrupt_exits:
  "(on_stateChange evt = ([EndRun], Inl (ProcessExit 1))) = (evt_type evt = JStr ''interrupt'')
   \<and> (on_stateChange evt = ([], Inr ())) = (evt_type evt \<noteq> JStr ''interrupt'')
   \<and> status_stream evts =
       (if \<exists>evt \<in> set evts. evt_type evt = JStr ''interrupt''
        then ([EndRun], Inl (ProcessExit 1)) else ([], Inr ()))
   \<and> ((\<forall>q \<in> set qs. \<forall>evt \<in> set (plan_status q). evt_type evt \<noteq> JStr ''interrupt'')
        \<and> (\<exists>evt \<in> set (plan_status p). evt_type evt = JStr ''interrupt'')
        \<and> engine_plans e = qs @ p # rs \<longrightarrow>
        one_shot e m = (ApiRun # map StartRun qs @ [StartRun p, EndRun], Inl (ProcessExit 1))
        \<and> watch_mode e =
            (NewWatcher # ObserveStdin # map StartRun qs @ [StartRun p, EndRun],
             Inl (ProcessExit 1)))
   \<and> ((\<forall>q \<in> set (engine_plans e). \<forall>evt \<in> set (plan_status q). evt_type evt \<noteq> JStr ''interrupt'')
        \<longrightarrow> watch_mode e = (NewWatcher # ObserveStdin # map StartRun (engine_plans e), Inr ())
            \<and> EndRun \<notin> set (fst (drive_runs (engine_plans e) False))
            \<and> snd (drive_runs (engine_plans e) False) \<noteq> Inl (ProcessExit 1))"
proof (intro conjI impI)
  show "(on_stateChange evt = ([EndRun], Inl (ProcessExit 1))) = (evt_type evt = JStr ''interrupt'')"
    by (simp add: on_stateChange_def proceed_def)
  show "(on_stateChange evt = ([], Inr ())) = (evt_type evt \<noteq> JStr ''interrupt'')"
    by (simp add: on_stateChange_def proceed_def)
  show "status_stream evts =
       (if \<exists>evt \<in> set evts. evt_type evt = JStr ''interrupt''
        then ([EndRun], Inl (ProcessExit 1)) else ([], Inr ()))"
    by (rule status_stream_eq)
next
  assume a: "(\<forall>q \<in> set qs. \<forall>evt \<in> set (plan_status q). evt_type evt \<noteq> JStr ''interrupt'')
        \<and> (\<exists>evt \<in> set (plan_status p). evt_type evt = JStr ''interrupt'')
        \<and> engine_plans e = qs @ p # rs"
  show "one_shot e m = (ApiRun # map StartRun qs @ [StartRun p, EndRun], Inl (ProcessExit 1))"
    using a by (intro one_shot_interrupted) simp_all
  show "watch_mode e =
            (NewWatcher # ObserveStdin # map StartRun qs @ [StartRun p, EndRun],
             Inl (ProcessExit 1))"
    using a by (intro watch_mode_interrupted) simp_all
next
  assume c: "\<forall>q \<in> set (engine_plans e). \<forall>evt \<in> set (plan_status q). evt_type evt \<noteq> JStr ''interrupt''"
  show "watch_mode e = (NewWatcher # ObserveStdin # map StartRun (engine_plans e), Inr ())"
    by (simp add: watch_mode_def watch_runs_clean [OF c] seq_step_emit)
  show "EndRun \<notin> set (fst (drive_runs (engine_plans e) False))"
    by (auto simp add: drive_runs_clean [OF c])
  show "snd (drive_runs (engine_plans e) False) \<noteq> Inl (ProcessExit 1)"
    by (simp add: drive_runs_clean [OF c])
qed

theorem interrupt_exits_witness:
  "on_stateChange (StateChange (JStr ''interrupt'')) = ([EndRun], Inl (ProcessExit 1))
   \<and> on_stateChange (StateChange (JStr ''worker-failed'')) = ([], Inr ())
   \<and> status_stream (plan_status interrupted_plan) = ([EndRun], Inl (ProcessExit 1))
   \<and> one_shot (ex_env\<lparr>engine_plans := [interrupted_plan]\<rparr>) []
        = ([ApiRun, StartRun interrupted_plan, EndRun], Inl (ProcessExit 1))
   \<and> watch_mode ex_env = ([NewWatcher, ObserveStdin] @ map StartRun (engine_plans ex_env), Inr ())"
proof -
  note t = interrupt_exits
    [of "StateChange (JStr ''interrupt'')" "plan_status interrupted_plan" "[]" interrupted_plan
        "ex_env\<lparr>engine_plans := [interrupted_plan]\<rparr>" "[]" "[]"]
  have a: "on_stateChange (StateChange (JStr ''interrupt'')) = ([EndRun], Inl (ProcessExit 1))"
    using t [THEN conjunct1] by simp
  have b: "on_stateChange (StateChange (JStr ''worker-failed'')) = ([], Inr ())"
    using interrupt_exits [of "StateChange (JStr ''worker-failed'')", THEN conjunct2, THEN conjunct1]
    by simp
  have c: "status_stream (plan_status interrupted_plan) = ([EndRun], Inl (ProcessExit 1))"
    using t [THEN conjunct2, THEN conjunct2, THEN conjunct1]
    by (simp add: interrupted_plan_def)
  have d: "one_shot (ex_env\<lparr>engine_plans := [interrupted_plan]\<rparr>) []
        = ([ApiRun, StartRun interrupted_plan, EndRun], Inl (ProcessExit 1))"
    using t [THEN conjunct2, THEN conjunct2, THEN conjunct2, THEN conjunct1]
    by (simp add: interrupted_plan_def)
  have f: "watch_mode ex_env = ([NewWatcher, ObserveStdin] @ map StartRun (engine_plans ex_env), Inr ())"
    using interrupt_exits [of _ _ "[]" _ ex_env, THEN conjunct2, THEN conjunct2, THEN conjunct2,
        THEN conjunct2]
    by (simp add: ex_env_def)
  show ?thesis using a b c d f by (intro conjI)
qed

text \<open>
  C7, as the code has it. In one-shot mode, when the engine's run resolves and no
  interrupt arrives: if a started plan was a debug plan whose number of resolved files is
  not exactly one (none, or more than one), the run fails with the instruction message
  and exit code 1, whatever the engine's result says; otherwise the exit code is what
  \<open>suggestExitCode\<close> answers, asked with whether any match pattern was supplied.
\<close>

theorem debug_needs_one_file:
  assumes "\<forall>p \<in> set (engine_plans e). \<forall>evt \<in> set (plan_status p). evt_type evt \<noteq> JStr ''interrupt''"
    and "engine_result e = Resolved suggestExitCode"
    and "\<not> truthy (js_get combined ''watch'')"
  shows "report_and_run e combined debug =
     (if \<exists>p \<in> set (engine_plans e). plan_debug p \<and> length (plan_files p) \<noteq> 1
      then (NewReporter (select_reporter e combined debug) # ApiRun
              # map StartRun (engine_plans e) @ [Diagnostic debug_path_message],
            Inl (ProcessExit 1))
      else (NewReporter (select_reporter e combined debug) # ApiRun
              # map StartRun (engine_plans e)
              @ [SetExitCode (suggestExitCode (match_of combined \<noteq> [])), EndRun],
            Inr ()))"
  by (simp add: report_and_run_def assms(3) one_shot_clean [OF assms(1,2)] seq_step_emit)

theorem debug_needs_one_file_witness:
  "report_and_run (ex_env\<lparr>engine_plans := [\<lparr>plan_debug = True, plan_files = [''a.js'', ''b.js''],
                                               plan_status = []\<rparr>]\<rparr>) [] None
     = ([NewReporter (MiniReporter JUndefined), ApiRun,
         StartRun \<lparr>plan_debug = True, plan_files = [''a.js'', ''b.js''], plan_status = []\<rparr>,
         Diagnostic debug_path_message], Inl (ProcessExit 1))
   \<and> report_and_run ex_env [(''match'', JStr ''foo'')] None
     = ([NewReporter (MiniReporter JUndefined), ApiRun,
         StartRun \<lparr>plan_debug = False, plan_files = [''test.js''], plan_status = []\<rparr>,
         SetExitCode 0, EndRun], Inr ())"
proof -
  have a: "report_and_run (ex_env\<lparr>engine_plans := [\<lparr>plan_debug = True, plan_files = [''a.js'', ''b.js''],
                                               plan_status = []\<rparr>]\<rparr>) [] None
     = ([NewReporter (MiniReporter JUndefined), ApiRun,
         StartRun \<lparr>plan_debug = True, plan_files = [''a.js'', ''b.js''], plan_status = []\<rparr>,
         Diagnostic debug_path_message], Inl (ProcessExit 1))"
    using debug_needs_one_file
      [of "ex_env\<lparr>engine_plans := [\<lparr>plan_debug = True, plan_files = [''a.js'', ''b.js''],
                                               plan_status = []\<rparr>]\<rparr>" "\<lambda>matching. 0" "[]" None]
    by (simp add: ex_env_def js_get_def select_reporter_def)
  have b: "report_and_run ex_env [(''match'', JStr ''foo'')] None
     = ([NewReporter (MiniReporter JUndefined), ApiRun,
         StartRun \<lparr>plan_debug = False, plan_files = [''test.js''], plan_status = []\<rparr>,
         SetExitCode 0, EndRun], Inr ())"
    using debug_needs_one_file [of ex_env "\<lambda>matching. 0" "[(''match'', JStr ''foo'')]" None]
    by (simp add: ex_env_def js_get_def select_reporter_def)
  show ?thesis using a b by (intro conjI)
qed

text \<open>
  C7 as stated fails in its second half: a debug plan with no resolved file is not a plan
  with more than one file, yet the run does not take the exit code \<open>0\<close> that the engine
  suggests; it fails with the instruction message and exit code 1.
\<close>

theorem debug_zero_files_counterexample:
  "plan_debug zero_files_plan
   \<and> \<not> 1 < length (plan_files zero_files_plan)
   \<and> engine_plans zero_files_env = [zero_files_plan]
   \<and> engine_result zero_files_env = Resolved (\<lambda>matching. 0)
   \<and> run zero_files_env (Loaded ex_project) DebugCmd debug_argv
       = ([Notify, NewApi (options_of zero_files_env ex_project (debug_of DebugCmd debug_argv)),
           NewReporter (VerboseReporter JUndefined), ApiRun, StartRun zero_files_plan,
           Diagnostic debug_path_message],
          Inl (ProcessExit 1))"
  by (simp add: run_defs zero_files_env_def ex_env_def ex_project_def zero_files_plan_def
      debug_argv_def)
text \<open>
  C3, as the code has it. A failed configuration load is caught: the run goes on with the
  empty configuration through the parsing of the arguments and the merge, and then ends
  at the check of line 178, for every command (\<open>reset-cache\<close> included) and every
  argument: it prints the error's message, followed by a blank line and the parent's
  stack (or the parent itself) when the error has a parent, and exits with code 1. Nothing
  else happens: no update notice, no cache deletion, no validation.
\<close>

theorem config_error_fatal:
  "conf_of (LoadFailed err) = []
   \<and> confError_of (LoadFailed err) = Some err
   \<and> run e (LoadFailed err) cmd argv =
       ([Diagnostic
           (case ce_parent err of
              None \<Rightarrow> ce_message err
            | Some p \<Rightarrow>
                ce_message err @ blank_line
                @ gray e (chalk_options_level e (combined_of [] argv)) (cause_text p))],
        Inl (ProcessExit 1))"
  by (simp add: run_load_failed conf_of_def confError_of_def)

theorem config_error_fatal_witness:
  "run ex_env (LoadFailed \<lparr>ce_message = ''bad config'',
                            ce_parent = Some \<lparr>err_message = ''Unexpected token'',
                                              err_stack = Some ''SyntaxError: Unexpected token'',
                                              err_text = ''SyntaxError''\<rparr>\<rparr>) RunTests []
     = ([Diagnostic (''bad config'' @ blank_line @ ''SyntaxError: Unexpected token'')],
        Inl (ProcessExit 1))"
  using config_error_fatal
    [of "\<lparr>ce_message = ''bad config'',
          ce_parent = Some \<lparr>err_message = ''Unexpected token'',
                            err_stack = Some ''SyntaxError: Unexpected token'',
                            err_text = ''SyntaxError''\<rparr>\<rparr>" ex_env RunTests "[]"]
  by (simp add: ex_env_def cause_text_def)

text \<open>
  C3 as stated fails: with a configuration that does not load, \<open>reset-cache\<close> does not
  succeed; it exits with code 1 on the configuration error and deletes nothing, where
  the same command with a configuration that loads clears the cache and exits with 0.
\<close>

theorem reset_cache_broken_config_counterexample:
  "run ex_env broken_load ResetCacheCmd [] = ([Diagnostic ''bad config''], Inl (ProcessExit 1))
   \<and> run ex_env (Loaded ex_project) ResetCacheCmd []
       = ([Notify, DelCache ''/p/node_modules/.cache/ava'', Removed ''/p/node_modules/.cache/ava''],
          Inl (ProcessExit 0))"
  by (simp add: run_defs broken_load_def ex_env_def ex_project_def)

text \<open>
  C9, as the code has it. In a run that is not \<open>reset-cache\<close>: when the command line
  asks for watch mode and for TAP and the persisted configuration does not set \<open>tap\<close>,
  the run prints the diagnostic \<open>The TAP reporter is not available when using watch
  mode.\<close> and exits with code 1; when the command line asks for watch mode and TAP is set
  by the persisted configuration, or not asked for on the command line, the combination
  passes this check, and the watch checks only fail in CI or when debugging. The reporter
  of a watch session asked for on the command line is never the TAP reporter. When the
  command line does not ask for watch mode, none of the watch checks is made.
\<close>

theorem watch_tap_rejected:
  assumes "cmd \<noteq> ResetCacheCmd"
  shows "(truthy (js_get argv ''watch'') \<and> truthy (js_get argv ''tap'')
            \<and> \<not> truthy (js_get conf ''tap'') \<longrightarrow>
            run e (Loaded conf) cmd argv =
              ([Notify,
                Diagnostic (''The '' @ ''TAP reporter is not available when using watch mode.'')],
               Inl (ProcessExit 1)))
         \<and> (truthy (js_get argv ''watch'')
              \<and> (\<not> truthy (js_get argv ''tap'') \<or> truthy (js_get conf ''tap'')) \<longrightarrow>
              watch_checks e argv conf (debug_of cmd argv) =
                (if is_ci e
                 then exit_with
                        ''Watch mode is not available in CI, as it prevents AVA from terminating.''
                 else if cmd = DebugCmd
                 then exit_with ''Watch mode is not available when debugging.''
                 else ([], Inr ())))
         \<and> (truthy (js_get argv ''watch'') \<longrightarrow>
              select_reporter e (combined_of conf argv) (debug_of cmd argv) \<noteq> TapReporter)
         \<and> (\<not> truthy (js_get argv ''watch'') \<longrightarrow>
              watch_checks e argv conf (debug_of cmd argv) = ([], Inr ()))"
proof (intro conjI impI)
  assume n: "truthy (js_get argv ''watch'') \<and> truthy (js_get argv ''tap'')
            \<and> \<not> truthy (js_get conf ''tap'')"
  have "watch_checks e argv conf (debug_of cmd argv)
          = exit_with ''The TAP reporter is not available when using watch mode.''"
    using n by (simp add: watch_checks_eq)
  then show "run e (Loaded conf) cmd argv =
              ([Notify,
                Diagnostic (''The '' @ ''TAP reporter is not available when using watch mode.'')],
               Inl (ProcessExit 1))"
    by (simp add: run_loaded [OF assms] validate_exit_early)
next
  assume y: "truthy (js_get argv ''watch'')
              \<and> (\<not> truthy (js_get argv ''tap'') \<or> truthy (js_get conf ''tap''))"
  then have w: "truthy (js_get argv ''watch'')" by simp
  show "watch_checks e argv conf (debug_of cmd argv) =
                (if is_ci e
                 then exit_with
                        ''Watch mode is not available in CI, as it prevents AVA from terminating.''
                 else if cmd = DebugCmd
                 then exit_with ''Watch mode is not available when debugging.''
                 else ([], Inr ()))"
    using y by (auto simp add: watch_checks_eq [OF w] debug_of_def)
next
  assume w: "truthy (js_get argv ''watch'')"
  have "has argv ''watch''"
    using w by (auto simp add: has_def js_get_def split: option.splits)
  then have "js_get (combined_of conf argv) ''watch'' = js_get argv ''watch''"
    by (intro combined_get_direct) simp_all
  then show "select_reporter e (combined_of conf argv) (debug_of cmd argv) \<noteq> TapReporter"
    using w by (simp add: select_reporter_def)
next
  assume "\<not> truthy (js_get argv ''watch'')"
  then show "watch_checks e argv conf (debug_of cmd argv) = ([], Inr ())"
    by (rule watch_checks_skipped)
qed

theorem watch_tap_rejected_witness:
  "run ex_env (Loaded ex_project) RunTests [(''watch'', JBool True), (''tap'', JBool True)]
     = ([Notify, Diagnostic ''The TAP reporter is not available when using watch mode.''],
        Inl (ProcessExit 1))
   \<and> watch_checks ex_env [(''watch'', JBool True), (''tap'', JBool True)]
        [(''tap'', JBool True)] None = ([], Inr ())
   \<and> watch_checks ex_env tap_argv watching_project None = ([], Inr ())"
proof -
  have c: "RunTests \<noteq> ResetCacheCmd" by simp
  have a: "run ex_env (Loaded ex_project) RunTests [(''watch'', JBool True), (''tap'', JBool True)]
     = ([Notify, Diagnostic ''The TAP reporter is not available when using watch mode.''],
        Inl (ProcessExit 1))"
    using watch_tap_rejected [OF c, of "[(''watch'', JBool True), (''tap'', JBool True)]"
        ex_project ex_env, THEN conjunct1]
    by (simp add: ex_project_def js_get_def)
  have b: "watch_checks ex_env [(''watch'', JBool True), (''tap'', JBool True)]
        [(''tap'', JBool True)] None = ([], Inr ())"
    using watch_tap_rejected [OF c, of "[(''watch'', JBool True), (''tap'', JBool True)]"
        "[(''tap'', JBool True)]" ex_env, THEN conjunct2, THEN conjunct1]
    by (simp add: js_get_def ex_env_def debug_of_def)
  have d: "watch_checks ex_env tap_argv watching_project None = ([], Inr ())"
    using watch_tap_rejected [OF c, of tap_argv watching_project ex_env, THEN conjunct2,
        THEN conjunct2, THEN conjunct2]
    by (simp add: js_get_def tap_argv_def debug_of_def)
  show ?thesis using a b d by (intro conjI)
qed

text \<open>
  C9 as stated fails: the check looks at the command line's \<open>watch\<close> only. With \<open>watch\<close>
  set by the persisted configuration, TAP asked for on the command line and not set by
  the persisted configuration, nothing fails: the mini reporter is made and the watcher
  is started.
\<close>

theorem watch_from_config_tap_counterexample:
  "truthy (js_get watching_project ''watch'')
   \<and> truthy (js_get tap_argv ''tap'')
   \<and> \<not> truthy (js_get watching_project ''tap'')
   \<and> run ex_env (Loaded watching_project) RunTests tap_argv
       = ([Notify,
           NewApi (options_of ex_env (combined_of watching_project tap_argv)
                     (debug_of RunTests tap_argv)),
           NewReporter (MiniReporter (JBool True)), NewWatcher, ObserveStdin,
           StartRun \<lparr>plan_debug = False, plan_files = [''test.js''], plan_status = []\<rparr>],
          Inr ())"
  by (simp add: run_defs watch_runs_clean ex_env_def watching_project_def ex_project_def
      tap_argv_def)

text \<open>
  C2, as the code has it. With the \<open>debug\<close> command and a truthy \<open>watch\<close> on the command
  line, every run exits with code 1 after at most the update notice and one diagnostic:
  no reporter is made, no watcher started, the engine not run. With a configuration that
  loads, the diagnostic is that of the first failing watch check, in the end
  \<open>Watch mode is not available when debugging.\<close>
\<close>

theorem watch_debug_exclusive:
  assumes "truthy (js_get argv ''watch'')"
  shows "run e (Loaded conf) DebugCmd argv =
           ([Notify,
             Diagnostic
               (if truthy (js_get argv ''tap'') \<and> \<not> truthy (js_get conf ''tap'')
                then ''The TAP reporter is not available when using watch mode.''
                else if is_ci e
                then ''Watch mode is not available in CI, as it prevents AVA from terminating.''
                else ''Watch mode is not available when debugging.'')],
            Inl (ProcessExit 1))
         \<and> snd (run e ld DebugCmd argv) = Inl (ProcessExit 1)
         \<and> (\<forall>x \<in> set (fst (run e ld DebugCmd argv)). x = Notify \<or> (\<exists>m. x = Diagnostic m))"
proof -
  define msg where "msg c =
      (if truthy (js_get argv ''tap'') \<and> \<not> truthy (js_get c ''tap'')
       then ''The TAP reporter is not available when using watch mode.''
       else if is_ci e
       then ''Watch mode is not available in CI, as it prevents AVA from terminating.''
       else ''Watch mode is not available when debugging.'')" for c :: obj
  have cmd: "DebugCmd \<noteq> ResetCacheCmd" by simp
  have "watch_checks e argv c (debug_of DebugCmd argv) = exit_with (msg c)" for c
    by (simp add: watch_checks_eq [OF assms] debug_of_def msg_def)
  then have "validate_and_run e c argv (combined_of c argv) (debug_of DebugCmd argv)
               = ([Diagnostic (msg c)], Inl (ProcessExit 1))" for c
    by (rule validate_exit_early)
  then have loaded: "run e (Loaded c) DebugCmd argv = ([Notify, Diagnostic (msg c)], Inl (ProcessExit 1))"
    for c
    by (simp only: run_loaded [OF cmd] fst_conv snd_conv)
  have any: "snd (run e ld DebugCmd argv) = Inl (ProcessExit 1)
         \<and> (\<forall>x \<in> set (fst (run e ld DebugCmd argv)). x = Notify \<or> (\<exists>m. x = Diagnostic m))"
  proof (cases ld)
    case (Loaded c)
    show ?thesis by (simp only: Loaded loaded) simp
  next
    case (LoadFailed err)
    show ?thesis by (simp only: LoadFailed run_load_failed) simp
  qed
  have first: "run e (Loaded conf) DebugCmd argv =
           ([Notify,
             Diagnostic
               (if truthy (js_get argv ''tap'') \<and> \<not> truthy (js_get conf ''tap'')
                then ''The TAP reporter is not available when using watch mode.''
                else if is_ci e
                then ''Watch mode is not available in CI, as it prevents AVA from terminating.''
                else ''Watch mode is not available when debugging.'')],
            Inl (ProcessExit 1))"
    using loaded [of conf] unfolding msg_def .
  show ?thesis
    by (rule conjI [OF first any])
qed

theorem watch_debug_exclusive_witness:
  "run ex_env (Loaded ex_project) DebugCmd ((''watch'', JBool True) # debug_argv)
     = ([Notify, Diagnostic ''Watch mode is not available when debugging.''], Inl (ProcessExit 1))"
proof -
  have w: "truthy (js_get ((''watch'', JBool True) # debug_argv) ''watch'')"
    by (simp add: js_get_def)
  show ?thesis
    using watch_debug_exclusive [OF w, of ex_env ex_project, THEN conjunct1]
    by (simp add: js_get_def debug_argv_def ex_project_def ex_env_def)
qed

text \<open>
  C2 as stated fails: the checks look at the command line's \<open>watch\<close> only. With \<open>watch\<close>
  set by the persisted configuration and the \<open>debug\<close> command, nothing fails: the verbose
  reporter is made and the watcher is started on a debugging engine.
\<close>

theorem watch_from_config_counterexample:
  "truthy (js_get watching_project ''watch'')
   \<and> debug_of DebugCmd debug_argv \<noteq> None
   \<and> run debug_env (Loaded watching_project) DebugCmd debug_argv
       = ([Notify,
           NewApi (options_of debug_env watching_project (debug_of DebugCmd debug_argv)),
           NewReporter (VerboseReporter (JBool True)), NewWatcher, ObserveStdin,
           StartRun debug_plan],
          Inr ())"
  by (simp add: run_defs watch_runs_clean debug_env_def ex_env_def watching_project_def
      ex_project_def debug_plan_def debug_argv_def)

text \<open>
  C4. The concurrency check fires exactly when the merged configuration has a
  \<open>concurrency\<close> property whose value is not a nonnegative integer (a negative number, a
  number that is not an integer, \<open>NaN\<close>, an infinity, or a value that is not a number):
  it then prints the fixed diagnostic, which names a nonnegative integer, and exits with
  code 1. Every nonnegative integer, \<open>0\<close> included, passes, and without the property the
  check does nothing. In a run that is not \<open>reset-cache\<close> and has come through the mode
  checks, this decides how the run goes on.
\<close>

theorem concurrency_validation:
  "(map_of combined ''concurrency'' = None \<longrightarrow> concurrency_check combined = ([], Inr ()))
   \<and> (\<forall>v. map_of combined ''concurrency'' = Some v \<longrightarrow>
          concurrency_check combined =
            (if \<exists>n::nat. v = JNum (Fin (of_nat n)) then ([], Inr ())
             else ([Diagnostic concurrency_message], Inl (ProcessExit 1))))
   \<and> (\<exists>a b. concurrency_message = a @ ''nonnegative integer'' @ b)
   \<and> (cmd \<noteq> ResetCacheCmd
        \<and> mode_checks e argv conf (combined_of conf argv) (debug_of cmd argv) = (es, Inr ())
        \<longrightarrow> run e (Loaded conf) cmd argv =
              (case map_of (combined_of conf argv) ''concurrency'' of
                 None \<Rightarrow>
                   (Notify # es
                      @ fst (after_concurrency e conf argv (combined_of conf argv)
                               (debug_of cmd argv)),
                    snd (after_concurrency e conf argv (combined_of conf argv)
                           (debug_of cmd argv)))
               | Some v \<Rightarrow>
                   if \<exists>n::nat. v = JNum (Fin (of_nat n))
                   then (Notify # es
                           @ fst (after_concurrency e conf argv (combined_of conf argv)
                                    (debug_of cmd argv)),
                         snd (after_concurrency e conf argv (combined_of conf argv)
                                (debug_of cmd argv)))
                   else (Notify # es @ [Diagnostic concurrency_message], Inl (ProcessExit 1))))"
proof (intro conjI impI allI)
  assume "map_of combined ''concurrency'' = None"
  then show "concurrency_check combined = ([], Inr ())"
    by (simp add: concurrency_check_eq)
next
  fix v
  assume "map_of combined ''concurrency'' = Some v"
  then show "concurrency_check combined =
            (if \<exists>n::nat. v = JNum (Fin (of_nat n)) then ([], Inr ())
             else ([Diagnostic concurrency_message], Inl (ProcessExit 1)))"
    by (simp add: concurrency_check_eq)
next
  show "\<exists>a b. concurrency_message = a @ ''nonnegative integer'' @ b"
    using concurrency_message_text by blast
next
  assume a: "cmd \<noteq> ResetCacheCmd
        \<and> mode_checks e argv conf (combined_of conf argv) (debug_of cmd argv) = (es, Inr ())"
  show "run e (Loaded conf) cmd argv =
              (case map_of (combined_of conf argv) ''concurrency'' of
                 None \<Rightarrow>
                   (Notify # es
                      @ fst (after_concurrency e conf argv (combined_of conf argv)
                               (debug_of cmd argv)),
                    snd (after_concurrency e conf argv (combined_of conf argv)
                           (debug_of cmd argv)))
               | Some v \<Rightarrow>
                   if \<exists>n::nat. v = JNum (Fin (of_nat n))
                   then (Notify # es
                           @ fst (after_concurrency e conf argv (combined_of conf argv)
                                    (debug_of cmd argv)),
                         snd (after_concurrency e conf argv (combined_of conf argv)
                                (debug_of cmd argv)))
                   else (Notify # es @ [Diagnostic concurrency_message], Inl (ProcessExit 1)))"
    using a
    by (simp add: run_loaded validate_after_mode_checks split: option.splits)
qed

theorem concurrency_validation_witness:
  "concurrency_check [(''concurrency'', JNum (Fin 0))] = ([], Inr ())
   \<and> concurrency_check [(''concurrency'', JNum (Fin (3 / 2)))]
       = ([Diagnostic concurrency_message], Inl (ProcessExit 1))
   \<and> concurrency_check [(''concurrency'', JStr ''4'')]
       = ([Diagnostic concurrency_message], Inl (ProcessExit 1))
   \<and> concurrency_check [(''tap'', JBool True)] = ([], Inr ())
   \<and> run ex_env (Loaded ex_project) RunTests [(''concurrency'', JNum (Fin (- 1)))]
       = ([Notify, Diagnostic concurrency_message], Inl (ProcessExit 1))"
proof -
  have zero: "\<exists>n::nat. JNum (Fin 0) = JNum (Fin (of_nat n))"
    using concurrency_invalid_iff [of "JNum (Fin 0)"] by (simp add: concurrency_invalid_def)
  have fl: "\<lfloor>3 / 2 :: rat\<rfloor> = 1" by (simp add: floor_eq_iff)
  have inv: "concurrency_invalid (JNum (Fin (3 / 2)))"
    by (simp add: concurrency_invalid_def fl)
  have frac: "\<not> (\<exists>n::nat. JNum (Fin (3 / 2)) = JNum (Fin (of_nat n)))"
    using inv unfolding concurrency_invalid_iff .
  have str: "\<not> (\<exists>n::nat. JStr ''4'' = JNum (Fin (of_nat n)))"
    by simp
  have neg: "\<not> (\<exists>n::nat. JNum (Fin (- 1)) = JNum (Fin (of_nat n)))"
    using concurrency_invalid_iff [of "JNum (Fin (- 1))"] by (simp add: concurrency_invalid_def)
  note t = concurrency_validation
  have a: "concurrency_check [(''concurrency'', JNum (Fin 0))] = ([], Inr ())"
    using t [of "[(''concurrency'', JNum (Fin 0))]", THEN conjunct2, THEN conjunct1] zero
    by simp
  have b: "concurrency_check [(''concurrency'', JNum (Fin (3 / 2)))]
       = ([Diagnostic concurrency_message], Inl (ProcessExit 1))"
    using t [of "[(''concurrency'', JNum (Fin (3 / 2)))]", THEN conjunct2, THEN conjunct1] frac
    by simp
  have c: "concurrency_check [(''concurrency'', JStr ''4'')]
       = ([Diagnostic concurrency_message], Inl (ProcessExit 1))"
    using t [of "[(''concurrency'', JStr ''4'')]", THEN conjunct2, THEN conjunct1] str
    by simp
  have d: "concurrency_check [(''tap'', JBool True)] = ([], Inr ())"
    using t [of "[(''tap'', JBool True)]", THEN conjunct1] by simp
  have mc: "mode_checks ex_env [(''concurrency'', JNum (Fin (- 1)))] ex_project
              (combined_of ex_project [(''concurrency'', JNum (Fin (- 1)))])
              (debug_of RunTests [(''concurrency'', JNum (Fin (- 1)))]) = ([], Inr ())"
    by (simp add: mode_checks_def watch_checks_def debug_checks_def debug_of_def js_get_def
        proceed_def seq_step_Inr)
  have cv: "map_of (combined_of ex_project [(''concurrency'', JNum (Fin (- 1)))]) ''concurrency''
              = Some (JNum (Fin (- 1)))"
    by (simp add: combined_direct)
  have f: "run ex_env (Loaded ex_project) RunTests [(''concurrency'', JNum (Fin (- 1)))]
       = ([Notify, Diagnostic concurrency_message], Inl (ProcessExit 1))"
    using t [of _ RunTests ex_env "[(''concurrency'', JNum (Fin (- 1)))]" ex_project "[]",
        THEN conjunct2, THEN conjunct2, THEN conjunct2] mc neg
    by (simp add: cv)
  show ?thesis using a b c d f by (intro conjI)
qed

text \<open>
  C5. When the persisted configuration has one of the keys \<open>compileEnhancements\<close>,
  \<open>helpers\<close> and \<open>sources\<close>, the legacy check exits with code 1 and the message of the
  first such key, in that order; the three messages differ from one another. Whatever
  the command line holds, a run that is not \<open>reset-cache\<close> never gets past this check: it
  prints nothing but the update notice, diagnostics and warnings, and it exits with code 1
  whenever the configuration carries its experiments (the only other end is the
  \<open>TypeError\<close> of line 237 on a configuration without them, TAP not being set).
\<close>

theorem legacy_keys_fatal:
  assumes "k \<in> {''compileEnhancements'', ''helpers'', ''sources''}" and "has conf k"
    and "cmd \<noteq> ResetCacheCmd"
  shows "legacy_checks conf = ([Diagnostic (legacy_message conf)], Inl (ProcessExit 1))
         \<and> (has conf ''compileEnhancements'' \<longrightarrow>
               legacy_message conf = compileEnhancements_message)
         \<and> (\<not> has conf ''compileEnhancements'' \<and> has conf ''helpers'' \<longrightarrow>
               legacy_message conf = helpers_message)
         \<and> (\<not> has conf ''compileEnhancements'' \<and> \<not> has conf ''helpers'' \<longrightarrow>
               legacy_message conf = sources_message)
         \<and> compileEnhancements_message \<noteq> helpers_message
         \<and> compileEnhancements_message \<noteq> sources_message
         \<and> helpers_message \<noteq> sources_message
         \<and> (snd (run e (Loaded conf) cmd argv) = Inl (ProcessExit 1)
              \<or> snd (run e (Loaded conf) cmd argv) = Inl Threw)
         \<and> list_all (\<lambda>x. x = Notify \<or> is_message x) (fst (run e (Loaded conf) cmd argv))
         \<and> (truthy (js_get (combined_of conf argv) ''tap'')
              \<or> key_count (js_get conf ''nonSemVerExperiments'') \<noteq> None \<longrightarrow>
              snd (run e (Loaded conf) cmd argv) = Inl (ProcessExit 1))"
proof -
  have present: "has conf ''compileEnhancements'' \<or> has conf ''helpers'' \<or> has conf ''sources''"
    using assms(1,2) by auto
  note never = validate_legacy_never_prepares
    [OF present, of e argv "combined_of conf argv" "debug_of cmd argv"]
  have a: "legacy_checks conf = ([Diagnostic (legacy_message conf)], Inl (ProcessExit 1))"
    by (rule legacy_checks_exit [OF present])
  have b: "has conf ''compileEnhancements'' \<longrightarrow> legacy_message conf = compileEnhancements_message"
    by (simp add: legacy_message_def)
  have c: "\<not> has conf ''compileEnhancements'' \<and> has conf ''helpers'' \<longrightarrow>
               legacy_message conf = helpers_message"
    by (simp add: legacy_message_def)
  have d: "\<not> has conf ''compileEnhancements'' \<and> \<not> has conf ''helpers'' \<longrightarrow>
               legacy_message conf = sources_message"
    by (simp add: legacy_message_def)
  have f: "snd (run e (Loaded conf) cmd argv) = Inl (ProcessExit 1)
              \<or> snd (run e (Loaded conf) cmd argv) = Inl Threw"
    using never by (simp add: run_loaded [OF assms(3)])
  have "list_all is_message
          (fst (validate_and_run e conf argv (combined_of conf argv) (debug_of cmd argv)))"
    using never by simp
  then have g: "list_all (\<lambda>x. x = Notify \<or> is_message x) (fst (run e (Loaded conf) cmd argv))"
    by (simp add: run_loaded [OF assms(3)] list_all_iff)
  have h: "truthy (js_get (combined_of conf argv) ''tap'')
              \<or> key_count (js_get conf ''nonSemVerExperiments'') \<noteq> None \<longrightarrow>
              snd (run e (Loaded conf) cmd argv) = Inl (ProcessExit 1)"
  proof
    assume x: "truthy (js_get (combined_of conf argv) ''tap'')
              \<or> key_count (js_get conf ''nonSemVerExperiments'') \<noteq> None"
    show "snd (run e (Loaded conf) cmd argv) = Inl (ProcessExit 1)"
      using validate_legacy_fatal [OF present x, of e argv "debug_of cmd argv"]
      by (simp add: run_loaded [OF assms(3)])
  qed
  show ?thesis
    using a b c d f g h legacy_messages_distinct by (intro conjI) simp_all
qed

theorem legacy_keys_fatal_witness:
  "legacy_checks helpers_project = ([Diagnostic helpers_message], Inl (ProcessExit 1))
   \<and> snd (run ex_env (Loaded helpers_project) RunTests [(''serial'', JBool True)])
       = Inl (ProcessExit 1)"
proof -
  have k: "''helpers'' \<in> {''compileEnhancements'', ''helpers'', ''sources''}" by simp
  have h: "has helpers_project ''helpers''"
    by (simp add: has_def helpers_project_def ex_project_def)
  have n: "\<not> has helpers_project ''compileEnhancements''"
    by (simp add: has_def helpers_project_def ex_project_def)
  have c: "RunTests \<noteq> ResetCacheCmd" by simp
  have x: "key_count (js_get helpers_project ''nonSemVerExperiments'') \<noteq> None"
    by (simp add: js_get_def helpers_project_def ex_project_def)
  note t = legacy_keys_fatal [OF k h c, of ex_env "[(''serial'', JBool True)]"]
  have m: "legacy_message helpers_project = helpers_message"
    using t [THEN conjunct2, THEN conjunct2, THEN conjunct1] n h by simp
  have a: "legacy_checks helpers_project = ([Diagnostic helpers_message], Inl (ProcessExit 1))"
    using t [THEN conjunct1] by (simp only: m)
  have b: "snd (run ex_env (Loaded helpers_project) RunTests [(''serial'', JBool True)])
       = Inl (ProcessExit 1)"
    using t [THEN conjunct2, THEN conjunct2, THEN conjunct2, THEN conjunct2, THEN conjunct2,
        THEN conjunct2, THEN conjunct2, THEN conjunct2, THEN conjunct2] x
    by simp
  show ?thesis using a b by (intro conjI)
qed

text \<open>
  C6. The reporter is chosen by priority from the merged configuration, the debug
  descriptor, the CI flag and the terminal flag alone: TAP when \<open>tap\<close> is set, \<open>watch\<close> is
  not and the run is not a debug run; otherwise the verbose reporter when debugging, or
  \<open>verbose\<close> is set, or under CI, or standard output is not a terminal; otherwise the mini
  reporter. Whatever reporter a run constructs is the one so chosen.
\<close>

theorem reporter_selection:
  "(truthy (js_get combined ''tap'') \<and> \<not> truthy (js_get combined ''watch'') \<and> debug = None
      \<longrightarrow> select_reporter e combined debug = TapReporter)
   \<and> (\<not> (truthy (js_get combined ''tap'') \<and> \<not> truthy (js_get combined ''watch'')
           \<and> debug = None)
        \<and> (debug \<noteq> None \<or> truthy (js_get combined ''verbose'') \<or> is_ci e
             \<or> \<not> stdout_is_tty e)
      \<longrightarrow> select_reporter e combined debug = VerboseReporter (js_get combined ''watch''))
   \<and> (\<not> (truthy (js_get combined ''tap'') \<and> \<not> truthy (js_get combined ''watch'')
           \<and> debug = None)
        \<and> \<not> (debug \<noteq> None \<or> truthy (js_get combined ''verbose'') \<or> is_ci e
               \<or> \<not> stdout_is_tty e)
      \<longrightarrow> select_reporter e combined debug = MiniReporter (js_get combined ''watch''))
   \<and> (\<forall>r. NewReporter r \<in> set (fst (run e ld cmd argv)) \<longrightarrow>
          r = select_reporter e (combined_of (conf_of ld) argv) (debug_of cmd argv))"
proof (intro conjI allI impI)
  fix r
  assume m: "NewReporter r \<in> set (fst (run e ld cmd argv))"
  have "list_all
          (reporter_is (select_reporter e (combined_of (conf_of ld) argv) (debug_of cmd argv)))
          (fst (run e ld cmd argv))"
    by (rule all_run)
  then have "reporter_is (select_reporter e (combined_of (conf_of ld) argv) (debug_of cmd argv))
               (NewReporter r)"
    using m unfolding list_all_iff by (rule bspec)
  then show "r = select_reporter e (combined_of (conf_of ld) argv) (debug_of cmd argv)"
    by simp
qed (auto simp add: select_reporter_def)

theorem reporter_selection_witness:
  "select_reporter ex_env [(''tap'', JBool True)] None = TapReporter
   \<and> select_reporter ex_env [(''tap'', JBool True), (''watch'', JBool True)] None
       = MiniReporter (JBool True)
   \<and> select_reporter (ex_env\<lparr>is_ci := True\<rparr>) [] None = VerboseReporter JUndefined
   \<and> select_reporter ex_env [] None = MiniReporter JUndefined
   \<and> fst (run ex_env (Loaded ex_project) RunTests []) ! 2 = NewReporter (MiniReporter JUndefined)"
proof -
  note t = reporter_selection
  have a: "select_reporter ex_env [(''tap'', JBool True)] None = TapReporter"
    using t [of "[(''tap'', JBool True)]" None ex_env, THEN conjunct1]
    by (simp add: js_get_def)
  have b: "select_reporter ex_env [(''tap'', JBool True), (''watch'', JBool True)] None
       = MiniReporter (JBool True)"
    using t [of "[(''tap'', JBool True), (''watch'', JBool True)]" None ex_env,
        THEN conjunct2, THEN conjunct2, THEN conjunct1]
    by (simp add: js_get_def ex_env_def)
  have c: "select_reporter (ex_env\<lparr>is_ci := True\<rparr>) [] None = VerboseReporter JUndefined"
    using t [of "[]" None "ex_env\<lparr>is_ci := True\<rparr>", THEN conjunct2, THEN conjunct1]
    by (simp add: js_get_def)
  have d: "select_reporter ex_env [] None = MiniReporter JUndefined"
    using t [of "[]" None ex_env, THEN conjunct2, THEN conjunct2, THEN conjunct1]
    by (simp add: js_get_def ex_env_def)
  have run_eq: "fst (run ex_env (Loaded ex_project) RunTests [])
      = [Notify, NewApi (options_of ex_env ex_project None),
         NewReporter (select_reporter ex_env ex_project None), ApiRun,
         StartRun \<lparr>plan_debug = False, plan_files = [''test.js''], plan_status = []\<rparr>,
         SetExitCode 0, EndRun]"
    by (simp add: run_defs ex_env_def ex_project_def)
  then have mem: "NewReporter (select_reporter ex_env ex_project None)
                    \<in> set (fst (run ex_env (Loaded ex_project) RunTests []))"
    by simp
  have "select_reporter ex_env ex_project None
          = select_reporter ex_env (combined_of (conf_of (Loaded ex_project)) [])
              (debug_of RunTests [])"
    using t [of _ _ ex_env "Loaded ex_project" RunTests "[]", THEN conjunct2, THEN conjunct2,
        THEN conjunct2] mem by blast
  have sel: "select_reporter ex_env ex_project None = MiniReporter JUndefined"
    using t [of ex_project None ex_env, THEN conjunct2, THEN conjunct2, THEN conjunct1]
    by (simp add: js_get_def ex_env_def ex_project_def)
  have f: "fst (run ex_env (Loaded ex_project) RunTests []) ! 2 = NewReporter (MiniReporter JUndefined)"
    by (simp add: run_eq sel)
  show ?thesis using a b c d f by (intro conjI)
qed

end
